theory Spec2Isabelle
  imports Main
begin

section \<open>Data model of the chat service (internal/services/chat.go)\<close>

text \<open>
  Times are Go \<open>time.Time\<close> values read as nanoseconds since the Unix epoch, durations are
  Go \<open>time.Duration\<close> values (nanoseconds); both are integers. Go's \<open>int\<close> is 64 bits wide
  and no counter of this file comes near its range (token counts are at most the capacity,
  lengths are lengths of lists in memory), so counters are unbounded integers.
\<close>

definition second :: int where "second = 1000000000"
definition minute :: int where "minute = 60 * 1000000000"
definition hour :: int where "hour = 60 * (60 * 1000000000)"

record RateLimiter =
  tokens :: int
  capacity :: int
  lastRefill :: int

record EncryptedMessage =
  Type :: string
  Room :: string
  User :: string
  Encrypted :: string
  IV :: string
  Timestamp :: int
  MessageID :: string
  ExpiresAt :: int
  Size :: int

record MessageConfig =
  MaxMessageSize :: int
  MessageExpiration :: int
  RateLimit :: int
  MaxRoomMessages :: int

definition messageConfig :: MessageConfig where
  "messageConfig =
     \<lparr>MaxMessageSize = 4096, MessageExpiration = 24 * hour, RateLimit = 30,
      MaxRoomMessages = 1000\<rparr>"

text \<open>
  A buffered channel of frames: the frames waiting to be received, and whether the
  channel has been closed. Every \<open>Send\<close> channel is made with capacity 256
  (\<open>HandleWebSocket\<close>).
\<close>

record 'b chan =
  buf :: "'b list"
  closed :: bool

definition chanCap :: nat where "chanCap = 256"

text \<open>
  Clients and rooms are heap objects referred to by pointer (\<open>*Client\<close>, \<open>*ChatRoom\<close>);
  pointers are addresses, the objects live in the two stores of the service state below.
  \<open>Client.Room\<close> is the field \<open>CRoom\<close> (a nil pointer is \<open>None\<close>); the transport handle
  \<open>Conn\<close> is not part of the model. The key set of the Go map \<open>Clients\<close> is a list of
  client addresses without repetitions; a \<open>range\<close> loop over the map visits it in list
  order (Go leaves the order unspecified, so the theorems do not depend on it).
\<close>

record 'b Client =
  CRoom :: "nat option"
  UserID :: string
  UserName :: string
  Send :: "'b chan"

record ChatRoom =
  ID :: string
  Name :: string
  Clients :: "nat list"
  Messages :: "EncryptedMessage list"
  CreatedAt :: int

subsection \<open>The durable tier\<close>

text \<open>
  The Redis server behind \<open>redisClient\<close>, as far as the service uses it: string keys with
  a value and an absolute expiry time, sorted sets kept in ascending order of
  (score, member) with an optional expiry time of the whole key, and for every command
  whether the call fails (an unreachable or erroring server).
\<close>

datatype redisCmd = SET | GET | ZADD | EXPIRE | ZREMRANGEBYRANK | ZREVRANGE

record 'b Redis =
  strings :: "string \<rightharpoonup> ('b \<times> int)"
  zsets :: "string \<rightharpoonup> ((int \<times> string) list \<times> int option)"
  failing :: "redisCmd \<Rightarrow> bool"

subsection \<open>Environment and service state\<close>

text \<open>
  What the code takes from outside: the clock (\<open>Now env n\<close> is the value of the n-th call
  of \<open>time.Now()\<close>), the standard library's \<open>Format("20060102150405")\<close>, and
  \<open>json.Marshal\<close>/\<open>json.Unmarshal\<close> on \<open>EncryptedMessage\<close>. The model is parametric in the
  type \<open>'b\<close> of serialized frames; \<open>NilBytes\<close> is the nil slice that \<open>json.Marshal\<close>
  returns beside an error.
\<close>

record 'b Env =
  Now :: "nat \<Rightarrow> int"
  Format :: "int \<Rightarrow> string"
  Marshal :: "EncryptedMessage \<Rightarrow> 'b option"
  Unmarshal :: "'b \<Rightarrow> EncryptedMessage option"
  NilBytes :: "'b"

datatype logEntry =
    LogCreatedRoom string string
  | LogJoined string string string
  | LogLeft string string
  | LogDeletedEmptyRoom string
  | LogRedisStoreFailed
  | LogRedisReadFailed
  | LogMarshalError
  | LogGetError string
  | LogUnmarshalError string
  | LogCleanedUpRoom string

text \<open>
  The \<open>ChatService\<close> singleton with the objects it points to: the registry \<open>rooms\<close>
  (the Go map as an association list with one entry per key, since \<open>cleanupRoutine\<close>
  ranges over it), the Redis client (\<open>None\<close> is the nil client) together with the server it
  talks to, the limiter map, the store of room objects and of client objects, the next
  free room address, the number of clock readings taken so far, and the log.
\<close>

record 'b ChatService =
  rooms :: "(string \<times> nat) list"
  redisClient :: "'b Redis option"
  rateLimiter :: "string \<rightharpoonup> RateLimiter"
  roomMem :: "nat \<rightharpoonup> ChatRoom"
  clientMem :: "nat \<rightharpoonup> 'b Client"
  nextRoom :: nat
  tick :: nat
  logs :: "logEntry list"

datatype panic = NilDereference | SendOnClosedChannel | CloseOfClosedChannel

datatype 'a outcome = Done 'a | Panic panic

datatype error = ErrRateLimitExceeded | ErrMessageTooLarge int int | ErrMarshal | ErrRedis

definition now :: "'b Env \<Rightarrow> 'b ChatService \<Rightarrow> int \<times> 'b ChatService" where
  "now env s = (Now env (tick s), s\<lparr>tick := Suc (tick s)\<rparr>)"

section \<open>Rate limiting\<close>

text \<open>
  \<open>time.Time.Sub\<close> saturates at the largest and smallest \<open>Duration\<close>;
  \<open>int(elapsed.Minutes())\<close> truncates towards zero. (\<open>Minutes\<close> goes through a float64 whose
  rounding can only show for durations beyond 2^18 minutes; for a bucket of at most that
  capacity the cap of \<open>allow\<close> hides it.)
\<close>

definition maxDuration :: int where "maxDuration = 2 ^ 63 - 1"
definition minDuration :: int where "minDuration = - (2 ^ 63)"

definition Sub :: "int \<Rightarrow> int \<Rightarrow> int" where
  "Sub t u =
     (let d = t - u in
      if d > maxDuration then maxDuration else if d < minDuration then minDuration else d)"

definition truncMinutes :: "int \<Rightarrow> int" where
  "truncMinutes d = (if d < 0 then - ((- d) div minute) else d div minute)"

definition min_go :: "int \<Rightarrow> int \<Rightarrow> int" where
  "min_go a b = (if a < b then a else b)"

definition allow :: "RateLimiter \<Rightarrow> int \<Rightarrow> bool \<times> RateLimiter" where
  "allow rl t =
     (let elapsed = Sub t (lastRefill rl);
          tokensToAdd = truncMinutes elapsed;
          rl1 = (if tokensToAdd > 0
                 then rl\<lparr>tokens := min_go (capacity rl) (tokens rl + tokensToAdd),
                         lastRefill := t\<rparr>
                 else rl)
      in if tokens rl1 > 0 then (True, rl1\<lparr>tokens := tokens rl1 - 1\<rparr>) else (False, rl1))"

definition checkRateLimit :: "'b Env \<Rightarrow> 'b ChatService \<Rightarrow> string \<Rightarrow> bool \<times> 'b ChatService" where
  "checkRateLimit env s userID =
     (let (limiter, s1) =
            (case rateLimiter s userID of
               Some l \<Rightarrow> (l, s)
             | None \<Rightarrow>
                 (let (t, s') = now env s
                  in (\<lparr>tokens = RateLimit messageConfig, capacity = RateLimit messageConfig,
                       lastRefill = t\<rparr>, s')));
          (t, s2) = now env s1;
          (ok, limiter') = allow limiter t
      in (ok, s2\<lparr>rateLimiter := (rateLimiter s2)(userID \<mapsto> limiter')\<rparr>))"




section \<open>Message ids\<close>

text \<open>
  \<open>generateRandomString\<close> takes every character from a fresh clock reading,
  \<open>charset[time.Now().UnixNano() % 62]\<close>. Clock readings are times after 1970, where Go's
  \<open>%\<close> and \<open>mod\<close> agree.
\<close>

definition charset :: string where
  "charset = ''abcdefghijklmnopqrstuvwxyzABCDEFGHIJKLMNOPQRSTUVWXYZ0123456789''"

fun generateRandomString :: "'b Env \<Rightarrow> 'b ChatService \<Rightarrow> nat \<Rightarrow> string \<times> 'b ChatService" where
  "generateRandomString env s 0 = ([], s)"
| "generateRandomString env s (Suc n) =
     (let (t, s1) = now env s;
          (r, s2) = generateRandomString env s1 n
      in (charset ! nat (t mod 62) # r, s2))"

definition generateMessageID :: "'b Env \<Rightarrow> 'b ChatService \<Rightarrow> string \<times> 'b ChatService" where
  "generateMessageID env s =
     (let (t, s1) = now env s;
          (r, s2) = generateRandomString env s1 6
      in (Format env t @ ''-'' @ r, s2))"

section \<open>Redis commands\<close>

text \<open>
  The commands the service issues, each at the server time \<open>t\<close> of its execution. A key
  whose expiry time has been reached is gone. A write returns \<open>None\<close> when the call
  fails, and then changes nothing.
\<close>

datatype redisErr = RedisNil | RedisDown

definition redisGet :: "'b Redis \<Rightarrow> int \<Rightarrow> string \<Rightarrow> redisErr + 'b" where
  "redisGet rc t key =
     (if failing rc GET then Inl RedisDown
      else case strings rc key of
             None \<Rightarrow> Inl RedisNil
           | Some (v, e) \<Rightarrow> if e \<le> t then Inl RedisNil else Inr v)"

definition redisSet :: "'b Redis \<Rightarrow> int \<Rightarrow> string \<Rightarrow> 'b \<Rightarrow> int \<Rightarrow> 'b Redis option" where
  "redisSet rc t key v ttl =
     (if failing rc SET then None
      else Some (rc\<lparr>strings := (strings rc)(key \<mapsto> (v, t + ttl))\<rparr>))"

text \<open>The sorted set stored under a key at time \<open>t\<close>, with its expiry time.\<close>

definition liveZset :: "'b Redis \<Rightarrow> int \<Rightarrow> string \<Rightarrow> ((int \<times> string) list \<times> int option) option" where
  "liveZset rc t key =
     (case zsets rc key of
        None \<Rightarrow> None
      | Some (zs, None) \<Rightarrow> Some (zs, None)
      | Some (zs, Some e) \<Rightarrow> if e \<le> t then None else Some (zs, Some e))"

text \<open>
  Members of a sorted set are ordered by score and, for equal scores, by the bytes of
  the member.
\<close>

fun lexLess :: "string \<Rightarrow> string \<Rightarrow> bool" where
  "lexLess [] [] = False"
| "lexLess [] (y # ys) = True"
| "lexLess (x # xs) [] = False"
| "lexLess (x # xs) (y # ys) =
     ((of_char x :: nat) < of_char y \<or> (x = y \<and> lexLess xs ys))"

definition zLess :: "int \<times> string \<Rightarrow> int \<times> string \<Rightarrow> bool" where
  "zLess a b = (fst a < fst b \<or> (fst a = fst b \<and> lexLess (snd a) (snd b)))"

fun zInsert :: "int \<times> string \<Rightarrow> (int \<times> string) list \<Rightarrow> (int \<times> string) list" where
  "zInsert e [] = [e]"
| "zInsert e (x # xs) = (if zLess e x then e # x # xs else x # zInsert e xs)"

definition redisZAdd :: "'b Redis \<Rightarrow> int \<Rightarrow> string \<Rightarrow> int \<Rightarrow> string \<Rightarrow> 'b Redis option" where
  "redisZAdd rc t key score member =
     (if failing rc ZADD then None
      else let (zs, eo) = (case liveZset rc t key of None \<Rightarrow> ([], None) | Some p \<Rightarrow> p);
               zs' = zInsert (score, member) (filter (\<lambda>e. snd e \<noteq> member) zs)
           in Some (rc\<lparr>zsets := (zsets rc)(key \<mapsto> (zs', eo))\<rparr>))"

definition redisExpire :: "'b Redis \<Rightarrow> int \<Rightarrow> string \<Rightarrow> int \<Rightarrow> 'b Redis option" where
  "redisExpire rc t key ttl =
     (if failing rc EXPIRE then None
      else case liveZset rc t key of
             None \<Rightarrow> Some rc
           | Some (zs, eo) \<Rightarrow> Some (rc\<lparr>zsets := (zsets rc)(key \<mapsto> (zs, Some (t + ttl)))\<rparr>))"

text \<open>
  Rank ranges: negative indices count from the end; the result is the first index and
  the number of elements of the range, \<open>None\<close> for an empty range.
\<close>

definition rankRange :: "nat \<Rightarrow> int \<Rightarrow> int \<Rightarrow> (nat \<times> nat) option" where
  "rankRange n start stop =
     (let len = int n;
          s0 = (if start < 0 then len + start else start);
          e0 = (if stop < 0 then len + stop else stop);
          s1 = (if s0 < 0 then 0 else s0)
      in if s1 > e0 \<or> s1 \<ge> len then None
         else let e1 = (if e0 \<ge> len then len - 1 else e0)
              in Some (nat s1, nat (e1 - s1 + 1)))"

definition redisZRemRangeByRank :: "'b Redis \<Rightarrow> int \<Rightarrow> string \<Rightarrow> int \<Rightarrow> int \<Rightarrow> 'b Redis option" where
  "redisZRemRangeByRank rc t key start stop =
     (if failing rc ZREMRANGEBYRANK then None
      else case liveZset rc t key of
             None \<Rightarrow> Some rc
           | Some (zs, eo) \<Rightarrow>
               (case rankRange (length zs) start stop of
                  None \<Rightarrow> Some rc
                | Some (i, n) \<Rightarrow>
                    (let zs' = take i zs @ drop (i + n) zs
                     in if zs' = [] then Some (rc\<lparr>zsets := (zsets rc)(key := None)\<rparr>)
                        else Some (rc\<lparr>zsets := (zsets rc)(key \<mapsto> (zs', eo))\<rparr>))))"


section \<open>Redis storage functions\<close>

definition msgKey :: "string \<Rightarrow> string \<Rightarrow> string" where
  "msgKey room mid = ''msg:'' @ room @ '':'' @ mid"

definition roomKey :: "string \<Rightarrow> string" where
  "roomKey room = ''room:'' @ room @ '':messages''"

definition Unix :: "int \<Rightarrow> int" where
  "Unix t = t div second"

text \<open>
  \<open>storeMessageInRedis\<close>: the result is the returned error, the server after the call and
  the service state (only the clock has advanced). The results of \<open>Expire\<close> and
  \<open>ZRemRangeByRank\<close> are not looked at by the code.
\<close>

definition storeMessageInRedis ::
  "'b Env \<Rightarrow> 'b ChatService \<Rightarrow> 'b Redis \<Rightarrow> EncryptedMessage \<Rightarrow> error option \<times> 'b Redis \<times> 'b ChatService" where
  "storeMessageInRedis env s rc message =
     (case Marshal env message of
        None \<Rightarrow> (Some ErrMarshal, rc, s)
      | Some messageData \<Rightarrow>
          (let (t1, s1) = now env s
           in case redisSet rc t1 (msgKey (Room message) (MessageID message)) messageData
                     (MessageExpiration messageConfig) of
                None \<Rightarrow> (Some ErrRedis, rc, s1)
              | Some rc1 \<Rightarrow>
                  (let (t2, s2) = now env s1
                   in case redisZAdd rc1 t2 (roomKey (Room message)) (Unix (Timestamp message))
                             (MessageID message) of
                        None \<Rightarrow> (Some ErrRedis, rc1, s2)
                      | Some rc2 \<Rightarrow>
                          (let (t3, s3) = now env s2;
                               rc3 = (case redisExpire rc2 t3 (roomKey (Room message))
                                             (MessageExpiration messageConfig) of
                                        None \<Rightarrow> rc2 | Some r \<Rightarrow> r);
                               (t4, s4) = now env s3;
                               rc4 = (case redisZRemRangeByRank rc3 t4 (roomKey (Room message)) 0
                                             (- MaxRoomMessages messageConfig - 1) of
                                        None \<Rightarrow> rc3 | Some r \<Rightarrow> r)
                           in (None, rc4, s4)))))"

text \<open>The loop of \<open>getMessagesFromRedis\<close> over the message ids read from the index.\<close>

fun fetchMessages ::
  "'b Env \<Rightarrow> 'b Redis \<Rightarrow> string \<Rightarrow> string list \<Rightarrow> 'b ChatService \<Rightarrow> EncryptedMessage list \<times> 'b ChatService" where
  "fetchMessages env rc roomID [] s = ([], s)"
| "fetchMessages env rc roomID (messageID # rest) s =
     (let (t, s1) = now env s
      in case redisGet rc t (msgKey roomID messageID) of
           Inl RedisNil \<Rightarrow> fetchMessages env rc roomID rest s1
         | Inl RedisDown \<Rightarrow>
             fetchMessages env rc roomID rest (s1\<lparr>logs := logs s1 @ [LogGetError messageID]\<rparr>)
         | Inr messageData \<Rightarrow>
             (case Unmarshal env messageData of
                None \<Rightarrow>
                  fetchMessages env rc roomID rest
                    (s1\<lparr>logs := logs s1 @ [LogUnmarshalError messageID]\<rparr>)
              | Some message \<Rightarrow>
                  (let (ms, s2) = fetchMessages env rc roomID rest s1 in (message # ms, s2))))"


section \<open>Channels and notifications\<close>

text \<open>
  \<open>select { case ch <- x: default: }\<close>: a send on a closed channel panics, a send on a
  channel with a free slot enqueues, otherwise the default branch runs.
\<close>

datatype 'b sendResult = Enqueued "'b chan" | WouldBlock | ClosedChannel

definition trySend :: "'b chan \<Rightarrow> 'b \<Rightarrow> 'b sendResult" where
  "trySend ch x =
     (if closed ch then ClosedChannel
      else if length (buf ch) < chanCap then Enqueued (ch\<lparr>buf := buf ch @ [x]\<rparr>)
      else WouldBlock)"

text \<open>The zero \<open>time.Time\<close> (1 January of year 1) in nanoseconds since 1970.\<close>

definition zeroTime :: int where
  "zeroTime = - 62135596800 * second"

text \<open>The loop shared by \<open>broadcastUserJoined\<close> and \<open>broadcastUserLeft\<close>.\<close>

fun notifyLoop :: "'b \<Rightarrow> nat list \<Rightarrow> (nat \<rightharpoonup> 'b Client) \<Rightarrow> (nat \<rightharpoonup> 'b Client) outcome" where
  "notifyLoop messageData [] cm = Done cm"
| "notifyLoop messageData (client # rest) cm =
     (case cm client of
        None \<Rightarrow> Panic NilDereference
      | Some c \<Rightarrow>
          (case trySend (Send c) messageData of
             ClosedChannel \<Rightarrow> Panic SendOnClosedChannel
           | WouldBlock \<Rightarrow> notifyLoop messageData rest cm
           | Enqueued ch \<Rightarrow> notifyLoop messageData rest (cm(client \<mapsto> c\<lparr>Send := ch\<rparr>))))"

definition notification :: "string \<Rightarrow> string \<Rightarrow> int \<Rightarrow> EncryptedMessage" where
  "notification ty room t =
     \<lparr>Type = ty, Room = room, User = ''system'', Encrypted = [], IV = [], Timestamp = t,
      MessageID = [], ExpiresAt = zeroTime, Size = 0\<rparr>"

definition broadcastNotification ::
  "string \<Rightarrow> 'b Env \<Rightarrow> 'b ChatService \<Rightarrow> nat \<Rightarrow> 'b ChatService outcome" where
  "broadcastNotification ty env s room =
     (case roomMem s room of
        None \<Rightarrow> Panic NilDereference
      | Some r \<Rightarrow>
          (let (t, s1) = now env s;
               messageData = (case Marshal env (notification ty (ID r) t) of
                                None \<Rightarrow> NilBytes env | Some d \<Rightarrow> d)
           in case notifyLoop messageData (Clients r) (clientMem s1) of
                Panic p \<Rightarrow> Panic p
              | Done cm \<Rightarrow> Done (s1\<lparr>clientMem := cm\<rparr>)))"

definition broadcastUserJoined :: "'b Env \<Rightarrow> 'b ChatService \<Rightarrow> nat \<Rightarrow> string \<Rightarrow> 'b ChatService outcome" where
  "broadcastUserJoined env s room userName = broadcastNotification ''user_joined'' env s room"

definition broadcastUserLeft :: "'b Env \<Rightarrow> 'b ChatService \<Rightarrow> nat \<Rightarrow> string \<Rightarrow> 'b ChatService outcome" where
  "broadcastUserLeft env s room userName = broadcastNotification ''user_left'' env s room"

section \<open>Rooms: create, join, leave\<close>

definition deleteKey :: "string \<Rightarrow> (string \<times> nat) list \<Rightarrow> (string \<times> nat) list" where
  "deleteKey k m = filter (\<lambda>p. fst p \<noteq> k) m"

definition putKey :: "string \<Rightarrow> nat \<Rightarrow> (string \<times> nat) list \<Rightarrow> (string \<times> nat) list" where
  "putKey k v m = (if k \<in> fst ` set m then map (\<lambda>p. if fst p = k then (k, v) else p) m else m @ [(k, v)])"

definition CreateRoom :: "'b Env \<Rightarrow> 'b ChatService \<Rightarrow> string \<Rightarrow> string \<Rightarrow> nat \<times> 'b ChatService" where
  "CreateRoom env s roomID roomName =
     (let (t, s1) = now env s;
          room = nextRoom s1
      in (room,
          s1\<lparr>roomMem := (roomMem s1)(room \<mapsto>
                \<lparr>ID = roomID, Name = roomName, Clients = [], Messages = [], CreatedAt = t\<rparr>),
             rooms := putKey roomID room (rooms s1),
             nextRoom := Suc room,
             logs := logs s1 @ [LogCreatedRoom roomName roomID]\<rparr>))"

definition GetRoom :: "'b ChatService \<Rightarrow> string \<Rightarrow> nat option" where
  "GetRoom s roomID = map_of (rooms s) roomID"

text \<open>
  \<open>JoinRoom\<close>. The replay \<open>go cs.sendRecentMessages(client, room)\<close> runs as a goroutine of
  its own and is the separate operation \<open>sendRecentMessages\<close> below.
\<close>

definition JoinRoom ::
  "'b Env \<Rightarrow> 'b ChatService \<Rightarrow> nat \<Rightarrow> string \<Rightarrow> string \<Rightarrow> string \<Rightarrow> 'b ChatService outcome" where
  "JoinRoom env s client roomID userID userName =
     (let (room, s1) = (case map_of (rooms s) roomID of
                          Some p \<Rightarrow> (p, s)
                        | None \<Rightarrow> CreateRoom env s roomID ''Chat Room'')
      in case roomMem s1 room of
           None \<Rightarrow> Panic NilDereference
         | Some r \<Rightarrow>
             (case clientMem s1 client of
                None \<Rightarrow> Panic NilDereference
              | Some c \<Rightarrow>
                  (let c' = c\<lparr>CRoom := Some room, UserID := userID, UserName := userName\<rparr>;
                       r' = r\<lparr>Clients := (if client \<in> set (Clients r) then Clients r
                                          else Clients r @ [client])\<rparr>;
                       s2 = s1\<lparr>clientMem := (clientMem s1)(client \<mapsto> c'),
                               roomMem := (roomMem s1)(room \<mapsto> r'),
                               logs := logs s1 @ [LogJoined userName userID roomID]\<rparr>
                   in broadcastUserJoined env s2 room userName)))"

definition LeaveRoom :: "'b Env \<Rightarrow> 'b ChatService \<Rightarrow> nat \<Rightarrow> 'b ChatService outcome" where
  "LeaveRoom env s client =
     (case clientMem s client of
        None \<Rightarrow> Panic NilDereference
      | Some c \<Rightarrow>
          (case CRoom c of
             None \<Rightarrow> Done s
           | Some room \<Rightarrow>
               (case roomMem s room of
                  None \<Rightarrow> Panic NilDereference
                | Some r \<Rightarrow>
                    if client \<in> set (Clients r) then
                      (if closed (Send c) then Panic CloseOfClosedChannel
                       else
                         (let s1 = s\<lparr>roomMem := (roomMem s)(room \<mapsto>
                                         r\<lparr>Clients := removeAll client (Clients r)\<rparr>),
                                      clientMem := (clientMem s)(client \<mapsto>
                                         c\<lparr>Send := (Send c)\<lparr>closed := True\<rparr>\<rparr>),
                                      logs := logs s @ [LogLeft (UserName c) (ID r)]\<rparr>
                          in case broadcastUserLeft env s1 room (UserName c) of
                               Panic p \<Rightarrow> Panic p
                             | Done s2 \<Rightarrow>
                                 (case roomMem s2 room of
                                    None \<Rightarrow> Panic NilDereference
                                  | Some r2 \<Rightarrow>
                                      if length (Clients r2) = 0
                                      then Done (s2\<lparr>rooms := deleteKey (ID r2) (rooms s2),
                                                    logs := logs s2 @ [LogDeletedEmptyRoom (ID r2)]\<rparr>)
                                      else Done s2)))
                    else Done s)))"

section \<open>Sending\<close>

text \<open>Lines 235 to 238 of \<open>BroadcastMessage\<close>: id, timestamp, expiry and size.\<close>

definition stampMessage ::
  "'b Env \<Rightarrow> 'b ChatService \<Rightarrow> EncryptedMessage \<Rightarrow> EncryptedMessage \<times> 'b ChatService" where
  "stampMessage env s message =
     (let (mid, s1) = generateMessageID env s;
          (t1, s2) = now env s1;
          (t2, s3) = now env s2
      in (message\<lparr>MessageID := mid, Timestamp := t1,
                  ExpiresAt := t2 + MessageExpiration messageConfig,
                  Size := int (length (Encrypted message))\<rparr>, s3))"

text \<open>Lines 241 to 246: the write to Redis, whose failure is logged and otherwise ignored.\<close>

definition persistDurable :: "'b Env \<Rightarrow> 'b ChatService \<Rightarrow> EncryptedMessage \<Rightarrow> 'b ChatService" where
  "persistDurable env s message =
     (case redisClient s of
        None \<Rightarrow> s
      | Some rc \<Rightarrow>
          (case storeMessageInRedis env s rc message of
             (Some e, rc', s') \<Rightarrow>
               s'\<lparr>redisClient := Some rc', logs := logs s' @ [LogRedisStoreFailed]\<rparr>
           | (None, rc', s') \<Rightarrow> s'\<lparr>redisClient := Some rc'\<rparr>))"

text \<open>Lines 249 to 254: the in-memory history keeps the last 100 messages.\<close>

definition appendHistory :: "EncryptedMessage list \<Rightarrow> EncryptedMessage \<Rightarrow> EncryptedMessage list" where
  "appendHistory msgs message =
     (let msgs' = msgs @ [message]
      in if length msgs' > 100 then drop (length msgs' - 100) msgs' else msgs')"

text \<open>
  Lines 263 to 271: the fan-out. The loop ranges over the members; a member whose queue
  is full is deleted from the member set and its queue is closed.
\<close>

fun fanOut ::
  "'b \<Rightarrow> nat list \<Rightarrow> nat list \<times> (nat \<rightharpoonup> 'b Client) \<Rightarrow> (nat list \<times> (nat \<rightharpoonup> 'b Client)) outcome" where
  "fanOut messageData [] acc = Done acc"
| "fanOut messageData (client # rest) (members, cm) =
     (case cm client of
        None \<Rightarrow> Panic NilDereference
      | Some c \<Rightarrow>
          (case trySend (Send c) messageData of
             ClosedChannel \<Rightarrow> Panic SendOnClosedChannel
           | Enqueued ch \<Rightarrow> fanOut messageData rest (members, cm(client \<mapsto> c\<lparr>Send := ch\<rparr>))
           | WouldBlock \<Rightarrow>
               fanOut messageData rest
                 (removeAll client members, cm(client \<mapsto> c\<lparr>Send := (Send c)\<lparr>closed := True\<rparr>\<rparr>))))"

definition BroadcastMessage ::
  "'b Env \<Rightarrow> 'b ChatService \<Rightarrow> nat \<Rightarrow> EncryptedMessage \<Rightarrow> string \<Rightarrow> (error option \<times> 'b ChatService) outcome" where
  "BroadcastMessage env s room message userID =
     (let (ok, s1) = checkRateLimit env s userID
      in if \<not> ok then Done (Some ErrRateLimitExceeded, s1)
         else if int (length (Encrypted message)) > MaxMessageSize messageConfig
         then Done (Some (ErrMessageTooLarge (int (length (Encrypted message)))
                            (MaxMessageSize messageConfig)), s1)
         else
           (case roomMem s1 room of
              None \<Rightarrow> Panic NilDereference
            | Some r \<Rightarrow>
                (let (message', s2) = stampMessage env s1 message;
                     s3 = persistDurable env s2 message';
                     msgs = appendHistory (Messages r) message';
                     s4 = s3\<lparr>roomMem := (roomMem s3)(room \<mapsto> r\<lparr>Messages := msgs\<rparr>)\<rparr>
                 in case Marshal env message' of
                      None \<Rightarrow> Done (Some ErrMarshal, s4\<lparr>logs := logs s4 @ [LogMarshalError]\<rparr>)
                    | Some messageData \<Rightarrow>
                        (case fanOut messageData (Clients r) (Clients r, clientMem s4) of
                           Panic p \<Rightarrow> Panic p
                         | Done (members, cm) \<Rightarrow>
                             Done (None,
                                   s4\<lparr>roomMem := (roomMem s4)(room \<mapsto>
                                          r\<lparr>Messages := msgs, Clients := members\<rparr>),
                                      clientMem := cm\<rparr>)))))"

section \<open>History replay\<close>




section \<open>Idle-room sweep\<close>

text \<open>One round of \<open>cleanupRoutine\<close> (the body of the loop over the ticker).\<close>

fun sweepRooms :: "'b Env \<Rightarrow> (string \<times> nat) list \<Rightarrow> 'b ChatService \<Rightarrow> 'b ChatService outcome" where
  "sweepRooms env [] s = Done s"
| "sweepRooms env ((roomID, room) # rest) s =
     (case roomMem s room of
        None \<Rightarrow> Panic NilDereference
      | Some r \<Rightarrow>
          (let isEmpty = (length (Clients r) = 0);
               (t, s1) = now env s;
               isOld = (Sub t (CreatedAt r) > 24 * hour)
           in if isEmpty \<and> isOld
              then sweepRooms env rest
                     (s1\<lparr>rooms := deleteKey roomID (rooms s1),
                         logs := logs s1 @ [LogCleanedUpRoom roomID]\<rparr>)
              else sweepRooms env rest s1))"

definition cleanupRoutine :: "'b Env \<Rightarrow> 'b ChatService \<Rightarrow> 'b ChatService outcome" where
  "cleanupRoutine env s = sweepRooms env (rooms s) s"

section \<open>Concrete instances\<close>

text \<open>
  A concrete environment for evaluating the model: frames are the messages themselves
  (\<open>Marshal\<close> and \<open>Unmarshal\<close> are both \<open>Some\<close>), and the clock is given per instance.
\<close>

definition emptyMessage :: EncryptedMessage where
  "emptyMessage =
     \<lparr>Type = [], Room = [], User = [], Encrypted = [], IV = [], Timestamp = 0,
      MessageID = [], ExpiresAt = 0, Size = 0\<rparr>"

text \<open>
  The layout \<open>20060102150405\<close> for a clock in UTC: year, month, day, hour, minute and
  second of the time, in decimal digits (the days are turned into a civil date by the
  usual era arithmetic of the proleptic Gregorian calendar).
\<close>

definition digitChar :: "int \<Rightarrow> char" where
  "digitChar d = ''0123456789'' ! nat d"

definition pad2 :: "int \<Rightarrow> string" where
  "pad2 n = [digitChar (n div 10 mod 10), digitChar (n mod 10)]"

definition pad4 :: "int \<Rightarrow> string" where
  "pad4 n = [digitChar (n div 1000 mod 10), digitChar (n div 100 mod 10),
             digitChar (n div 10 mod 10), digitChar (n mod 10)]"

definition civilFromDays :: "int \<Rightarrow> int \<times> int \<times> int" where
  "civilFromDays z0 =
     (let z = z0 + 719468;
          era = z div 146097;
          doe = z mod 146097;
          yoe = (doe - doe div 1460 + doe div 36524 - doe div 146096) div 365;
          y = yoe + era * 400;
          doy = doe - (365 * yoe + yoe div 4 - yoe div 100);
          mp = (5 * doy + 2) div 153;
          d = doy - (153 * mp + 2) div 5 + 1;
          m = (if mp < 10 then mp + 3 else mp - 9)
      in (if m \<le> 2 then y + 1 else y, m, d))"

definition formatUTC :: "int \<Rightarrow> string" where
  "formatUTC t =
     (let secs = t div second;
          days = secs div 86400;
          r = secs mod 86400;
          (y, m, d) = civilFromDays days
      in pad4 y @ pad2 m @ pad2 d @ pad2 (r div 3600) @ pad2 (r mod 3600 div 60) @ pad2 (r mod 60))"

definition envWith :: "(nat \<Rightarrow> int) \<Rightarrow> EncryptedMessage Env" where
  "envWith clock =
     \<lparr>Now = clock, Format = formatUTC, Marshal = Some, Unmarshal = Some,
      NilBytes = emptyMessage\<rparr>"



definition downRedis :: "EncryptedMessage Redis" where
  "downRedis = \<lparr>strings = Map.empty, zsets = Map.empty, failing = (\<lambda>c. True)\<rparr>"

definition helloMessage :: EncryptedMessage where
  "helloMessage = emptyMessage\<lparr>Type := ''message'', Room := ''r1'', User := ''alice'',
                                Encrypted := ''P1'', IV := ''iv1''\<rparr>"

definition openClient :: "nat \<Rightarrow> string \<Rightarrow> EncryptedMessage Client" where
  "openClient room name =
     \<lparr>CRoom = Some room, UserID = ''user-'' @ name, UserName = name,
      Send = \<lparr>buf = [], closed = False\<rparr>\<rparr>"

definition oneRoomService :: "EncryptedMessage Redis option \<Rightarrow> EncryptedMessage ChatService" where
  "oneRoomService rc =
     \<lparr>rooms = [(''r1'', 0)], redisClient = rc, rateLimiter = Map.empty,
      roomMem = [0 \<mapsto> \<lparr>ID = ''r1'', Name = ''Chat Room'', Clients = [0], Messages = [],
                        CreatedAt = 0\<rparr>],
      clientMem = [0 \<mapsto> openClient 0 ''alice''],
      nextRoom = 1, tick = 0, logs = []\<rparr>"

definition nanoClock :: "nat \<Rightarrow> int" where
  "nanoClock n = int n"

definition bigMessage :: "nat \<Rightarrow> EncryptedMessage" where
  "bigMessage n = helloMessage\<lparr>Encrypted := replicate n (CHR ''x'')\<rparr>"

definition chargedService :: "EncryptedMessage ChatService" where
  "chargedService =
     (oneRoomService None)\<lparr>rateLimiter :=
        [''user-alice'' \<mapsto> \<lparr>tokens = 30, capacity = 30, lastRefill = 0\<rparr>]\<rparr>"

definition twoClientService :: "EncryptedMessage ChatService" where
  "twoClientService =
     \<lparr>rooms = [(''r1'', 0)], redisClient = None, rateLimiter = Map.empty,
      roomMem = [0 \<mapsto> \<lparr>ID = ''r1'', Name = ''Chat Room'', Clients = [0, 1], Messages = [],
                        CreatedAt = 0\<rparr>],
      clientMem = [0 \<mapsto> openClient 0 ''alice'', 1 \<mapsto> openClient 0 ''bob''],
      nextRoom = 1, tick = 0, logs = []\<rparr>"

definition afterAliceLeft :: "EncryptedMessage ChatService" where
  "afterAliceLeft =
     \<lparr>rooms = [(''r1'', 0)], redisClient = None, rateLimiter = Map.empty,
      roomMem = [0 \<mapsto> \<lparr>ID = ''r1'', Name = ''Chat Room'', Clients = [1], Messages = [],
                        CreatedAt = 0\<rparr>],
      clientMem = [0 \<mapsto> (openClient 0 ''alice'')\<lparr>Send := \<lparr>buf = [], closed = True\<rparr>\<rparr>,
                   1 \<mapsto> (openClient 0 ''bob'')\<lparr>Send :=
                          \<lparr>buf = [notification ''user_left'' ''r1'' 0], closed = False\<rparr>\<rparr>],
      nextRoom = 1, tick = 1, logs = [LogLeft ''alice'' ''r1'']\<rparr>"

definition fullChan :: "EncryptedMessage chan" where
  "fullChan = \<lparr>buf = replicate 256 emptyMessage, closed = False\<rparr>"

definition unboundClient :: "EncryptedMessage Client" where
  "unboundClient = \<lparr>CRoom = None, UserID = [], UserName = [], Send = \<lparr>buf = [], closed = False\<rparr>\<rparr>"

definition fullRoomService :: "EncryptedMessage ChatService" where
  "fullRoomService =
     \<lparr>rooms = [(''r1'', 0)], redisClient = None, rateLimiter = Map.empty,
      roomMem = [0 \<mapsto> \<lparr>ID = ''r1'', Name = ''Chat Room'', Clients = [0], Messages = [],
                        CreatedAt = 0\<rparr>],
      clientMem = [0 \<mapsto> (openClient 0 ''alice'')\<lparr>Send := fullChan\<rparr>, 1 \<mapsto> unboundClient],
      nextRoom = 1, tick = 0, logs = []\<rparr>"

definition lobbyService :: "EncryptedMessage ChatService" where
  "lobbyService =
     (oneRoomService None)\<lparr>clientMem := [0 \<mapsto> openClient 0 ''alice'', 1 \<mapsto> unboundClient]\<rparr>"

definition afterBobJoined :: "EncryptedMessage ChatService" where
  "afterBobJoined =
     \<lparr>rooms = [(''r1'', 0)], redisClient = None, rateLimiter = Map.empty,
      roomMem = [0 \<mapsto> \<lparr>ID = ''r1'', Name = ''Chat Room'', Clients = [0, 1], Messages = [],
                        CreatedAt = 0\<rparr>],
      clientMem = [0 \<mapsto> (openClient 0 ''alice'')\<lparr>Send := fullChan\<rparr>,
                   1 \<mapsto> \<lparr>CRoom = Some 0, UserID = ''user-bob'', UserName = ''bob'',
                          Send = \<lparr>buf = [notification ''user_joined'' ''r1'' 0], closed = False\<rparr>\<rparr>],
      nextRoom = 1, tick = 1, logs = [LogJoined ''bob'' ''user-bob'' ''r1'']\<rparr>"

definition sweepClock :: "nat \<Rightarrow> int" where
  "sweepClock n = (if n < 11 then int n else 30 * minute)"

definition soloFullService :: "EncryptedMessage ChatService" where
  "soloFullService =
     \<lparr>rooms = [(''r1'', 0)], redisClient = None, rateLimiter = Map.empty,
      roomMem = [0 \<mapsto> \<lparr>ID = ''r1'', Name = ''Chat Room'', Clients = [0], Messages = [],
                        CreatedAt = 0\<rparr>],
      clientMem = [0 \<mapsto> (openClient 0 ''alice'')\<lparr>Send := fullChan\<rparr>],
      nextRoom = 1, tick = 0, logs = []\<rparr>"

definition stampedHello :: EncryptedMessage where
  "stampedHello =
     helloMessage\<lparr>MessageID := ''19700101000000-defghi'', Timestamp := 9,
                   ExpiresAt := 10 + 24 * hour, Size := 2\<rparr>"

definition afterFanOut :: "EncryptedMessage ChatService" where
  "afterFanOut =
     \<lparr>rooms = [(''r1'', 0)], redisClient = None,
      rateLimiter = [''user-alice'' \<mapsto> \<lparr>tokens = 29, capacity = 30, lastRefill = 0\<rparr>],
      roomMem = [0 \<mapsto> \<lparr>ID = ''r1'', Name = ''Chat Room'', Clients = [],
                        Messages = [stampedHello], CreatedAt = 0\<rparr>],
      clientMem = [0 \<mapsto> (openClient 0 ''alice'')\<lparr>Send := fullChan\<lparr>closed := True\<rparr>\<rparr>],
      nextRoom = 1, tick = 11, logs = []\<rparr>"











definition secondsClock :: "nat \<Rightarrow> int" where
  "secondsClock n = int n * second"





section \<open>Properties of the rate limiter\<close>



lemma allow_unfold:
  "allow rl t =
     (let n = truncMinutes (Sub t (lastRefill rl));
          rl1 = (if n > 0 then rl\<lparr>tokens := min_go (capacity rl) (tokens rl + n), lastRefill := t\<rparr> else rl)
      in if tokens rl1 > 0 then (True, rl1\<lparr>tokens := tokens rl1 - 1\<rparr>) else (False, rl1))"
  by (simp add: allow_def Let_def)



lemma allow_within_minute:
  assumes "lastRefill rl \<le> t" "t < lastRefill rl + minute"
  shows "allow rl t = (if tokens rl > 0 then (True, rl\<lparr>tokens := tokens rl - 1\<rparr>) else (False, rl))"
proof -
  have m: "minute < maxDuration" by (simp add: minute_def maxDuration_def)
  have "Sub t (lastRefill rl) = t - lastRefill rl"
    using assms m by (simp add: Sub_def Let_def minDuration_def)
  moreover have "(t - lastRefill rl) div minute = 0"
    using assms by (intro div_pos_pos_trivial) simp_all
  ultimately have "truncMinutes (Sub t (lastRefill rl)) = 0"
    using assms(1) by (simp add: truncMinutes_def)
  then show ?thesis
    by (simp add: allow_unfold)
qed

lemma checkRateLimit_existing:
  assumes "rateLimiter s u = Some rl"
  shows "checkRateLimit env s u =
     (fst (allow rl (Now env (tick s))),
      s\<lparr>tick := Suc (tick s), rateLimiter := (rateLimiter s)(u \<mapsto> snd (allow rl (Now env (tick s))))\<rparr>)"
  using assms by (simp add: checkRateLimit_def now_def Let_def split: prod.splits)









section \<open>Sending and the durable tier\<close>

lemma now_simps [simp]:
  "fst (now env s) = Now env (tick s)"
  "snd (now env s) = s\<lparr>tick := Suc (tick s)\<rparr>"
  by (simp_all add: now_def)

lemma generateRandomString_state:
  "snd (generateRandomString env s n) = s\<lparr>tick := tick s + n\<rparr>"
  by (induction n arbitrary: s) (simp_all add: now_def case_prod_beta)

lemma generateMessageID_state:
  "snd (generateMessageID env s) = s\<lparr>tick := tick s + 7\<rparr>"
proof -
  have "snd (generateRandomString env (s\<lparr>tick := Suc (tick s)\<rparr>) 6)
          = s\<lparr>tick := Suc (tick s)\<rparr>\<lparr>tick := tick (s\<lparr>tick := Suc (tick s)\<rparr>) + 6\<rparr>"
    by (rule generateRandomString_state)
  then show ?thesis
    by (simp add: generateMessageID_def now_def case_prod_beta)
qed

lemma stampMessage_state:
  "snd (stampMessage env s m) = s\<lparr>tick := tick s + 9\<rparr>"
  using generateMessageID_state[of env s]
  by (simp add: stampMessage_def now_def case_prod_beta)

lemma stampMessage_fields:
  "Encrypted (fst (stampMessage env s m)) = Encrypted m"
  "IV (fst (stampMessage env s m)) = IV m"
  "Type (fst (stampMessage env s m)) = Type m"
  "Room (fst (stampMessage env s m)) = Room m"
  "User (fst (stampMessage env s m)) = User m"
  "Size (fst (stampMessage env s m)) = int (length (Encrypted m))"
  by (simp_all add: stampMessage_def case_prod_beta)

lemma checkRateLimit_frame:
  "rooms (snd (checkRateLimit env s u)) = rooms s"
  "redisClient (snd (checkRateLimit env s u)) = redisClient s"
  "roomMem (snd (checkRateLimit env s u)) = roomMem s"
  "clientMem (snd (checkRateLimit env s u)) = clientMem s"
  "nextRoom (snd (checkRateLimit env s u)) = nextRoom s"
  "logs (snd (checkRateLimit env s u)) = logs s"
  by (simp_all add: checkRateLimit_def now_def Let_def case_prod_beta split: option.splits)


lemma storeMessageInRedis_frame:
  "rooms (snd (snd (storeMessageInRedis env s rc m))) = rooms s"
  "rateLimiter (snd (snd (storeMessageInRedis env s rc m))) = rateLimiter s"
  "roomMem (snd (snd (storeMessageInRedis env s rc m))) = roomMem s"
  "clientMem (snd (snd (storeMessageInRedis env s rc m))) = clientMem s"
  "nextRoom (snd (snd (storeMessageInRedis env s rc m))) = nextRoom s"
  "logs (snd (snd (storeMessageInRedis env s rc m))) = logs s"
  by (simp_all add: storeMessageInRedis_def now_def case_prod_beta Let_def split: option.splits)

lemma persistDurable_frame:
  "rooms (persistDurable env s m) = rooms s"
  "rateLimiter (persistDurable env s m) = rateLimiter s"
  "roomMem (persistDurable env s m) = roomMem s"
  "clientMem (persistDurable env s m) = clientMem s"
  "nextRoom (persistDurable env s m) = nextRoom s"
  by (simp_all add: persistDurable_def case_prod_beta storeMessageInRedis_frame split: option.splits)

lemma persistDurable_absent:
  "redisClient s = None \<Longrightarrow> persistDurable env s m = s"
  by (simp add: persistDurable_def)

lemma persistDurable_failing:
  assumes "redisClient s = Some rc" "failing rc SET" "Marshal env m = Some d"
  shows "persistDurable env s m
           = s\<lparr>tick := Suc (tick s), logs := logs s @ [LogRedisStoreFailed]\<rparr>"
  using assms
  by (simp add: persistDurable_def storeMessageInRedis_def redisSet_def now_def)

lemma fanOut_Done:
  assumes "distinct cs" "\<forall>c\<in>set cs. \<exists>cl. cm c = Some cl \<and> \<not> closed (Send cl)"
  shows "\<exists>res. fanOut d cs (ms, cm) = Done res"
  using assms
proof (induction cs arbitrary: ms cm)
  case Nil
  then show ?case by simp
next
  case (Cons c cs)
  from Cons.prems obtain cl where cl: "cm c = Some cl" "\<not> closed (Send cl)" by auto
  have d: "distinct cs" and nin: "c \<notin> set cs" using Cons.prems(1) by simp_all
  have rest: "\<forall>c'\<in>set cs. \<exists>cl'. (cm(c \<mapsto> x)) c' = Some cl' \<and> \<not> closed (Send cl')" for x
    using Cons.prems(2) nin by auto
  show ?case
  proof (cases "length (buf (Send cl)) < chanCap")
    case True
    then have e: "fanOut d (c # cs) (ms, cm)
                 = fanOut d cs (ms, cm(c \<mapsto> cl\<lparr>Send := (Send cl)\<lparr>buf := buf (Send cl) @ [d]\<rparr>\<rparr>))"
      using cl by (simp add: trySend_def)
    show ?thesis unfolding e by (rule Cons.IH[OF d rest])
  next
    case False
    then have e: "fanOut d (c # cs) (ms, cm)
                 = fanOut d cs (removeAll c ms, cm(c \<mapsto> cl\<lparr>Send := (Send cl)\<lparr>closed := True\<rparr>\<rparr>))"
      using cl by (simp add: trySend_def)
    show ?thesis unfolding e by (rule Cons.IH[OF d rest])
  qed
qed


lemma BroadcastMessage_accepted:
  assumes "checkRateLimit env s u = (True, s1)"
    and "int (length (Encrypted message)) \<le> 4096"
    and "roomMem s room = Some r"
  shows "BroadcastMessage env s room message u =
     (let message' = fst (stampMessage env s1 message);
          s3 = persistDurable env (snd (stampMessage env s1 message)) message';
          msgs = appendHistory (Messages r) message';
          s4 = s3\<lparr>roomMem := (roomMem s3)(room \<mapsto> r\<lparr>Messages := msgs\<rparr>)\<rparr>
      in case Marshal env message' of
           None \<Rightarrow> Done (Some ErrMarshal, s4\<lparr>logs := logs s4 @ [LogMarshalError]\<rparr>)
         | Some messageData \<Rightarrow>
             (case fanOut messageData (Clients r) (Clients r, clientMem s) of
                Panic p \<Rightarrow> Panic p
              | Done res \<Rightarrow>
                  Done (None,
                        s4\<lparr>roomMem := (roomMem s4)(room \<mapsto>
                               r\<lparr>Messages := msgs, Clients := fst res\<rparr>),
                           clientMem := snd res\<rparr>)))"
proof -
  have f: "roomMem s1 = roomMem s" "clientMem s1 = clientMem s"
    using checkRateLimit_frame(3,4)[of env s u] assms(1) by simp_all
  have g: "clientMem (persistDurable env (snd (stampMessage env s1 message)) m) = clientMem s" for m
    by (simp add: persistDurable_frame stampMessage_state f)
  show ?thesis
    using assms(2,3)
    by (simp add: BroadcastMessage_def assms(1) messageConfig_def f g Let_def case_prod_beta
             split: option.splits outcome.splits)
qed


lemma appendHistory_last: "last (appendHistory msgs m) = m"
  by (simp add: appendHistory_def Let_def)

text \<open>
  Claim C1. A send does not fail because of the durable tier. When the Redis client is
  absent, or every write to Redis fails, a send that passes the rate limit and the size
  check (into an existing room whose members have open queues, with a message that
  serializes) returns no error; the stamped message, with the payload and the IV as
  sent, is the last entry of the room's in-memory history; the durable tier is as it
  was, and the only trace of the failure is one log entry.
\<close>

theorem send_survives_durable_failure:
  assumes durable: "redisClient s = None \<or>
        (\<exists>rc. redisClient s = Some rc \<and> failing rc SET \<and> failing rc ZADD \<and>
              failing rc EXPIRE \<and> failing rc ZREMRANGEBYRANK)"
    and allowed: "fst (checkRateLimit env s u)"
    and size: "int (length (Encrypted message)) \<le> MaxMessageSize messageConfig"
    and room: "roomMem s room = Some r"
    and members: "distinct (Clients r)"
      "\<forall>c\<in>set (Clients r). \<exists>cl. clientMem s c = Some cl \<and> \<not> closed (Send cl)"
    and marshal: "Marshal env (fst (stampMessage env (snd (checkRateLimit env s u)) message)) \<noteq> None"
  shows "\<exists>s' r'. BroadcastMessage env s room message u = Done (None, s') \<and>
           roomMem s' room = Some r' \<and>
           Messages r' = appendHistory (Messages r)
                           (fst (stampMessage env (snd (checkRateLimit env s u)) message)) \<and>
           last (Messages r') = fst (stampMessage env (snd (checkRateLimit env s u)) message) \<and>
           Encrypted (last (Messages r')) = Encrypted message \<and>
           IV (last (Messages r')) = IV message \<and>
           redisClient s' = redisClient s \<and>
           logs s' = logs s @ (if redisClient s = None then [] else [LogRedisStoreFailed])"
proof -
  define s1 where "s1 = snd (checkRateLimit env s u)"
  define m' where "m' = fst (stampMessage env s1 message)"
  define s2 where "s2 = snd (stampMessage env s1 message)"
  define s3 where "s3 = persistDurable env s2 m'"
  define msgs where "msgs = appendHistory (Messages r) m'"
  have cr: "checkRateLimit env s u = (True, s1)"
    using allowed by (simp add: s1_def prod_eq_iff)
  obtain d where d: "Marshal env m' = Some d"
    using marshal by (auto simp: m'_def s1_def)
  obtain res where res: "fanOut d (Clients r) (Clients r, clientMem s) = Done res"
    using fanOut_Done[OF members] by blast
  have sz: "int (length (Encrypted message)) \<le> 4096"
    using size by (simp add: messageConfig_def)
  define s' where "s' = s3\<lparr>roomMem := (roomMem s3)(room \<mapsto> r\<lparr>Messages := msgs, Clients := fst res\<rparr>),
                           clientMem := snd res\<rparr>"
  have bm: "BroadcastMessage env s room message u = Done (None, s')"
    unfolding BroadcastMessage_accepted[OF cr sz room]
    by (simp add: Let_def d res m'_def[symmetric] s2_def[symmetric] s3_def[symmetric]
          msgs_def[symmetric] s'_def)
  have s2: "s2 = s1\<lparr>tick := tick s1 + 9\<rparr>"
    by (simp add: s2_def stampMessage_state)
  have rc2: "redisClient s2 = redisClient s" "logs s2 = logs s"
    by (simp_all add: s2 s1_def checkRateLimit_frame)
  have s3: "redisClient s3 = redisClient s \<and>
            logs s3 = logs s @ (if redisClient s = None then [] else [LogRedisStoreFailed])"
  proof (cases "redisClient s")
    case None
    then have "s3 = s2" by (simp add: s3_def persistDurable_absent rc2)
    then show ?thesis using None rc2 by simp
  next
    case (Some rc)
    then have "failing rc SET" using durable by auto
    then have "s3 = s2\<lparr>tick := Suc (tick s2), logs := logs s2 @ [LogRedisStoreFailed]\<rparr>"
      unfolding s3_def using Some rc2 d by (intro persistDurable_failing) simp_all
    then show ?thesis using Some rc2 by simp
  qed
  have "roomMem s' room = Some (r\<lparr>Messages := msgs, Clients := fst res\<rparr>)"
    by (simp add: s'_def)
  moreover have "last msgs = m'" by (simp add: msgs_def appendHistory_last)
  moreover have "Encrypted m' = Encrypted message" "IV m' = IV message"
    by (simp_all add: m'_def stampMessage_fields)
  moreover have "redisClient s' = redisClient s"
    "logs s' = logs s @ (if redisClient s = None then [] else [LogRedisStoreFailed])"
    using s3 by (simp_all add: s'_def)
  ultimately show ?thesis
    using bm by (simp add: msgs_def m'_def s1_def)
qed




theorem send_survives_durable_failure_witness:
  "\<exists>s' r'. BroadcastMessage (envWith nanoClock) (oneRoomService (Some downRedis)) 0 helloMessage
              ''user-alice'' = Done (None, s') \<and>
           roomMem s' 0 = Some r' \<and>
           Encrypted (last (Messages r')) = ''P1'' \<and>
           IV (last (Messages r')) = ''iv1'' \<and>
           redisClient s' = Some downRedis \<and>
           logs s' = [LogRedisStoreFailed]"
proof -
  let ?env = "envWith nanoClock" and ?s = "oneRoomService (Some downRedis)"
  let ?r = "\<lparr>ID = ''r1'', Name = ''Chat Room'', Clients = [0], Messages = [], CreatedAt = 0\<rparr>"
  have h1: "redisClient ?s = None \<or>
        (\<exists>rc. redisClient ?s = Some rc \<and> failing rc SET \<and> failing rc ZADD \<and>
              failing rc EXPIRE \<and> failing rc ZREMRANGEBYRANK)"
    by (simp add: oneRoomService_def downRedis_def)
  have h2: "fst (checkRateLimit ?env ?s ''user-alice'')"
    by (simp add: checkRateLimit_def oneRoomService_def now_def envWith_def nanoClock_def
          messageConfig_def allow_def Sub_def truncMinutes_def minute_def minDuration_def
          maxDuration_def Let_def)
  have h3: "int (length (Encrypted helloMessage)) \<le> MaxMessageSize messageConfig"
    by (simp add: helloMessage_def messageConfig_def)
  have h4: "roomMem ?s 0 = Some ?r"
    by (simp add: oneRoomService_def)
  have h5: "distinct (Clients ?r)" by simp
  have h6: "\<forall>c\<in>set (Clients ?r). \<exists>cl. clientMem ?s c = Some cl \<and> \<not> closed (Send cl)"
    by (simp add: oneRoomService_def openClient_def)
  have h7: "Marshal ?env (fst (stampMessage ?env (snd (checkRateLimit ?env ?s ''user-alice'')) helloMessage)) \<noteq> None"
    by (simp add: envWith_def)
  show ?thesis
    using send_survives_durable_failure[OF h1 h2 h3 h4 h5 h6 h7]
    by (auto simp: helloMessage_def oneRoomService_def)
qed

section \<open>The size check\<close>

lemma allow_changes_limiter:
  assumes "fst (allow l t)"
  shows "snd (allow l t) \<noteq> l"
proof (cases "truncMinutes (Sub t (lastRefill l)) > 0")
  case False
  then have "tokens (snd (allow l t)) = tokens l - 1"
    using assms by (simp add: allow_unfold Let_def split: if_splits)
  then have "tokens (snd (allow l t)) \<noteq> tokens l" by simp
  then show ?thesis by auto
next
  case True
  then have lr: "lastRefill (snd (allow l t)) = t"
    by (simp add: allow_unfold Let_def)
  have "t \<noteq> lastRefill l"
  proof
    assume "t = lastRefill l"
    then have "truncMinutes (Sub t (lastRefill l)) = 0"
      by (simp add: Sub_def truncMinutes_def maxDuration_def minDuration_def)
    then show False using True by simp
  qed
  then have "lastRefill (snd (allow l t)) \<noteq> lastRefill l" using lr by simp
  then show ?thesis by auto
qed

lemma checkRateLimit_changes_limiter:
  assumes "fst (checkRateLimit env s u)"
  shows "rateLimiter (snd (checkRateLimit env s u)) u \<noteq> rateLimiter s u"
proof (cases "rateLimiter s u")
  case None
  then show ?thesis
    by (simp add: checkRateLimit_def now_def Let_def case_prod_beta)
next
  case (Some l)
  have "fst (allow l (Now env (tick s)))"
    using assms checkRateLimit_existing[OF Some, of env] by simp
  then have "snd (allow l (Now env (tick s))) \<noteq> l" by (rule allow_changes_limiter)
  then show ?thesis using checkRateLimit_existing[OF Some, of env] Some by simp
qed

lemma BroadcastMessage_too_large:
  assumes "fst (checkRateLimit env s u)"
    and "MaxMessageSize messageConfig < int (length (Encrypted message))"
  shows "BroadcastMessage env s room message u =
           Done (Some (ErrMessageTooLarge (int (length (Encrypted message))) 4096),
                 snd (checkRateLimit env s u))"
  using assms by (simp add: BroadcastMessage_def case_prod_beta messageConfig_def)


lemma bigMessage_length: "int (length (Encrypted (bigMessage n))) = int n"
  by (simp add: bigMessage_def)


lemma accepted_returns:
  assumes allowed: "fst (checkRateLimit env s u)"
    and size: "int (length (Encrypted message)) \<le> 4096"
    and room: "roomMem s room = Some r"
    and members: "distinct (Clients r)"
      "\<forall>c\<in>set (Clients r). \<exists>cl. clientMem s c = Some cl \<and> \<not> closed (Send cl)"
    and marshal: "Marshal env (fst (stampMessage env (snd (checkRateLimit env s u)) message)) = Some d"
  shows "\<exists>s'. BroadcastMessage env s room message u = Done (None, s')"
proof -
  define s1 where "s1 = snd (checkRateLimit env s u)"
  have cr: "checkRateLimit env s u = (True, s1)"
    using allowed by (simp add: s1_def prod_eq_iff)
  have d: "Marshal env (fst (stampMessage env s1 message)) = Some d"
    using marshal by (simp add: s1_def)
  obtain res where res: "fanOut d (Clients r) (Clients r, clientMem s) = Done res"
    using fanOut_Done[OF members] by blast
  show ?thesis
    unfolding BroadcastMessage_accepted[OF cr size room]
    by (simp add: Let_def d res)
qed

lemma no_refill_charge:
  assumes allowed: "fst (checkRateLimit env s u)"
    and l: "rateLimiter s u = Some l"
    and w: "lastRefill l \<le> Now env (tick s)" "Now env (tick s) < lastRefill l + minute"
  shows "rateLimiter (snd (checkRateLimit env s u)) u = Some (l\<lparr>tokens := tokens l - 1\<rparr>)"
proof -
  have "fst (allow l (Now env (tick s)))"
    using allowed checkRateLimit_existing[OF l, of env] by simp
  then have "snd (allow l (Now env (tick s))) = l\<lparr>tokens := tokens l - 1\<rparr>"
    using allow_within_minute[OF w] by (simp split: if_splits)
  then show ?thesis
    using checkRateLimit_existing[OF l, of env] by simp
qed

text \<open>
  Claim C2, as stated, fails: the size check of \<open>BroadcastMessage\<close> comes after the
  rate-limit check, which has already taken a token from the sender's bucket. Here a
  payload of 4097 bytes is rejected as too large and the sender's token count has gone
  from 30 to 29.
\<close>

theorem oversized_send_charges_limiter_counterexample:
  "rateLimiter chargedService ''user-alice''
     = Some \<lparr>tokens = 30, capacity = 30, lastRefill = 0\<rparr> \<and>
   BroadcastMessage (envWith nanoClock) chargedService 0 (bigMessage 4097) ''user-alice''
     = Done (Some (ErrMessageTooLarge 4097 4096),
             chargedService\<lparr>tick := 1, rateLimiter :=
               [''user-alice'' \<mapsto> \<lparr>tokens = 29, capacity = 30, lastRefill = 0\<rparr>]\<rparr>)"
proof -
  have a: "checkRateLimit (envWith nanoClock) chargedService ''user-alice''
             = (True, chargedService\<lparr>tick := 1, rateLimiter :=
                  [''user-alice'' \<mapsto> \<lparr>tokens = 29, capacity = 30, lastRefill = 0\<rparr>]\<rparr>)"
    by (simp add: checkRateLimit_def chargedService_def oneRoomService_def now_def envWith_def
          nanoClock_def allow_def Sub_def truncMinutes_def minute_def minDuration_def
          maxDuration_def Let_def)
  have b: "rateLimiter chargedService ''user-alice''
             = Some \<lparr>tokens = 30, capacity = 30, lastRefill = 0\<rparr>"
    by (simp add: chargedService_def)
  have c: "BroadcastMessage (envWith nanoClock) chargedService 0 (bigMessage 4097) ''user-alice''
     = Done (Some (ErrMessageTooLarge 4097 4096),
             chargedService\<lparr>tick := 1, rateLimiter :=
               [''user-alice'' \<mapsto> \<lparr>tokens = 29, capacity = 30, lastRefill = 0\<rparr>]\<rparr>)"
    unfolding BroadcastMessage_def a
    by (simp add: bigMessage_length messageConfig_def)
  show ?thesis using b c by (rule conjI)
qed

text \<open>
  Claim C2, amended. For a send that passes the rate limit: a payload of exactly the
  maximum size (4096 bytes) is accepted (into an existing room whose members have open
  queues, with a message that serializes); a larger payload is rejected with the
  message-too-large error, and the state after the rejected call is the state after the
  rate-limit check: rooms, histories, memberships, clients, the durable tier and the log
  are unchanged, while the sender's limiter entry has changed (with no refill due, its
  token count is one lower).
\<close>

theorem size_check_follows_rate_limit:
  assumes allowed: "fst (checkRateLimit env s u)"
  shows "(int (length (Encrypted message)) = MaxMessageSize messageConfig \<and>
          roomMem s room = Some r \<and> distinct (Clients r) \<and>
          (\<forall>c\<in>set (Clients r). \<exists>cl. clientMem s c = Some cl \<and> \<not> closed (Send cl)) \<and>
          Marshal env (fst (stampMessage env (snd (checkRateLimit env s u)) message)) \<noteq> None
          \<longrightarrow> (\<exists>s'. BroadcastMessage env s room message u = Done (None, s')))
       \<and>
         (MaxMessageSize messageConfig < int (length (Encrypted message)) \<longrightarrow>
            BroadcastMessage env s room message u =
              Done (Some (ErrMessageTooLarge (int (length (Encrypted message)))
                            (MaxMessageSize messageConfig)),
                    snd (checkRateLimit env s u)) \<and>
            roomMem (snd (checkRateLimit env s u)) = roomMem s \<and>
            clientMem (snd (checkRateLimit env s u)) = clientMem s \<and>
            rooms (snd (checkRateLimit env s u)) = rooms s \<and>
            redisClient (snd (checkRateLimit env s u)) = redisClient s \<and>
            logs (snd (checkRateLimit env s u)) = logs s \<and>
            rateLimiter (snd (checkRateLimit env s u)) u \<noteq> rateLimiter s u \<and>
            (\<forall>l. rateLimiter s u = Some l \<and> lastRefill l \<le> Now env (tick s) \<and>
                  Now env (tick s) < lastRefill l + minute \<longrightarrow>
                  rateLimiter (snd (checkRateLimit env s u)) u
                    = Some (l\<lparr>tokens := tokens l - 1\<rparr>)))"
proof (intro conjI)
  show "int (length (Encrypted message)) = MaxMessageSize messageConfig \<and>
          roomMem s room = Some r \<and> distinct (Clients r) \<and>
          (\<forall>c\<in>set (Clients r). \<exists>cl. clientMem s c = Some cl \<and> \<not> closed (Send cl)) \<and>
          Marshal env (fst (stampMessage env (snd (checkRateLimit env s u)) message)) \<noteq> None
          \<longrightarrow> (\<exists>s'. BroadcastMessage env s room message u = Done (None, s'))"
  proof
    assume h: "int (length (Encrypted message)) = MaxMessageSize messageConfig \<and>
          roomMem s room = Some r \<and> distinct (Clients r) \<and>
          (\<forall>c\<in>set (Clients r). \<exists>cl. clientMem s c = Some cl \<and> \<not> closed (Send cl)) \<and>
          Marshal env (fst (stampMessage env (snd (checkRateLimit env s u)) message)) \<noteq> None"
    from h have h1: "int (length (Encrypted message)) \<le> 4096"
      by (simp add: messageConfig_def)
    from h have h2: "roomMem s room = Some r" by (elim conjE)
    from h have h3: "distinct (Clients r)" by (elim conjE)
    from h have h4: "\<forall>c\<in>set (Clients r). \<exists>cl. clientMem s c = Some cl \<and> \<not> closed (Send cl)"
      by (elim conjE)
    from h have "Marshal env (fst (stampMessage env (snd (checkRateLimit env s u)) message)) \<noteq> None"
      by (elim conjE)
    then obtain d where h5: "Marshal env (fst (stampMessage env (snd (checkRateLimit env s u)) message)) = Some d"
      by (cases "Marshal env (fst (stampMessage env (snd (checkRateLimit env s u)) message))") simp_all
    show "\<exists>s'. BroadcastMessage env s room message u = Done (None, s')"
      using allowed h1 h2 h3 h4 h5 by (rule accepted_returns)
  qed
  show "MaxMessageSize messageConfig < int (length (Encrypted message)) \<longrightarrow>
            BroadcastMessage env s room message u =
              Done (Some (ErrMessageTooLarge (int (length (Encrypted message)))
                            (MaxMessageSize messageConfig)),
                    snd (checkRateLimit env s u)) \<and>
            roomMem (snd (checkRateLimit env s u)) = roomMem s \<and>
            clientMem (snd (checkRateLimit env s u)) = clientMem s \<and>
            rooms (snd (checkRateLimit env s u)) = rooms s \<and>
            redisClient (snd (checkRateLimit env s u)) = redisClient s \<and>
            logs (snd (checkRateLimit env s u)) = logs s \<and>
            rateLimiter (snd (checkRateLimit env s u)) u \<noteq> rateLimiter s u \<and>
            (\<forall>l. rateLimiter s u = Some l \<and> lastRefill l \<le> Now env (tick s) \<and>
                  Now env (tick s) < lastRefill l + minute \<longrightarrow>
                  rateLimiter (snd (checkRateLimit env s u)) u
                    = Some (l\<lparr>tokens := tokens l - 1\<rparr>))"
  proof (intro impI conjI allI)
    assume big: "MaxMessageSize messageConfig < int (length (Encrypted message))"
    have m: "MaxMessageSize messageConfig = 4096" by (simp add: messageConfig_def)
    show "BroadcastMessage env s room message u =
              Done (Some (ErrMessageTooLarge (int (length (Encrypted message)))
                            (MaxMessageSize messageConfig)),
                    snd (checkRateLimit env s u))"
      unfolding m using BroadcastMessage_too_large[OF allowed big] .
    show "roomMem (snd (checkRateLimit env s u)) = roomMem s"
      by (rule checkRateLimit_frame)
    show "clientMem (snd (checkRateLimit env s u)) = clientMem s"
      by (rule checkRateLimit_frame)
    show "rooms (snd (checkRateLimit env s u)) = rooms s"
      by (rule checkRateLimit_frame)
    show "redisClient (snd (checkRateLimit env s u)) = redisClient s"
      by (rule checkRateLimit_frame)
    show "logs (snd (checkRateLimit env s u)) = logs s"
      by (rule checkRateLimit_frame)
    show "rateLimiter (snd (checkRateLimit env s u)) u \<noteq> rateLimiter s u"
      using allowed by (rule checkRateLimit_changes_limiter)
    fix l
    assume h: "rateLimiter s u = Some l \<and> lastRefill l \<le> Now env (tick s) \<and>
                  Now env (tick s) < lastRefill l + minute"
    from h have l: "rateLimiter s u = Some l" by (elim conjE)
    from h have w1: "lastRefill l \<le> Now env (tick s)" by (elim conjE)
    from h have w2: "Now env (tick s) < lastRefill l + minute" by (elim conjE)
    show "rateLimiter (snd (checkRateLimit env s u)) u = Some (l\<lparr>tokens := tokens l - 1\<rparr>)"
      using allowed l w1 w2 by (rule no_refill_charge)
  qed
qed

theorem size_check_follows_rate_limit_witness:
  "(\<exists>s'. BroadcastMessage (envWith nanoClock) chargedService 0 (bigMessage 4096) ''user-alice''
            = Done (None, s')) \<and>
   BroadcastMessage (envWith nanoClock) chargedService 0 (bigMessage 4097) ''user-alice''
     = Done (Some (ErrMessageTooLarge 4097 4096),
             snd (checkRateLimit (envWith nanoClock) chargedService ''user-alice'')) \<and>
   roomMem (snd (checkRateLimit (envWith nanoClock) chargedService ''user-alice''))
     = roomMem chargedService \<and>
   rateLimiter (snd (checkRateLimit (envWith nanoClock) chargedService ''user-alice'')) ''user-alice''
     = Some \<lparr>tokens = 29, capacity = 30, lastRefill = 0\<rparr>"
proof -
  let ?env = "envWith nanoClock"
  let ?r = "\<lparr>ID = ''r1'', Name = ''Chat Room'', Clients = [0], Messages = [], CreatedAt = 0\<rparr>"
  let ?l = "\<lparr>tokens = 30, capacity = 30, lastRefill = 0\<rparr>"
  have a: "fst (checkRateLimit ?env chargedService ''user-alice'')"
    by (simp add: checkRateLimit_def chargedService_def oneRoomService_def now_def envWith_def
          nanoClock_def allow_def Sub_def truncMinutes_def minute_def minDuration_def
          maxDuration_def Let_def)
  have b: "int (length (Encrypted (bigMessage 4096))) = MaxMessageSize messageConfig \<and>
          roomMem chargedService 0 = Some ?r \<and> distinct (Clients ?r) \<and>
          (\<forall>c\<in>set (Clients ?r). \<exists>cl. clientMem chargedService c = Some cl \<and> \<not> closed (Send cl)) \<and>
          Marshal ?env (fst (stampMessage ?env (snd (checkRateLimit ?env chargedService ''user-alice''))
                               (bigMessage 4096))) \<noteq> None"
    by (simp add: bigMessage_length messageConfig_def chargedService_def oneRoomService_def
          openClient_def envWith_def)
  have c: "MaxMessageSize messageConfig < int (length (Encrypted (bigMessage 4097)))"
    by (simp add: bigMessage_length messageConfig_def)
  have d: "rateLimiter chargedService ''user-alice'' = Some ?l \<and>
           lastRefill ?l \<le> Now ?env (tick chargedService) \<and>
           Now ?env (tick chargedService) < lastRefill ?l + minute"
    by (simp add: chargedService_def oneRoomService_def envWith_def nanoClock_def minute_def)
  have e: "int (length (Encrypted (bigMessage 4097))) = 4097" "MaxMessageSize messageConfig = 4096"
    by (simp_all add: bigMessage_length messageConfig_def)
  from size_check_follows_rate_limit[OF a, of "bigMessage 4096" 0 ?r] b
  have one: "\<exists>s'. BroadcastMessage ?env chargedService 0 (bigMessage 4096) ''user-alice'' = Done (None, s')"
    by blast
  from size_check_follows_rate_limit[OF a, of "bigMessage 4097" 0 ?r] c d
  have two: "BroadcastMessage ?env chargedService 0 (bigMessage 4097) ''user-alice''
     = Done (Some (ErrMessageTooLarge (int (length (Encrypted (bigMessage 4097))))
                     (MaxMessageSize messageConfig)),
             snd (checkRateLimit ?env chargedService ''user-alice''))"
    and three: "roomMem (snd (checkRateLimit ?env chargedService ''user-alice'')) = roomMem chargedService"
    and four: "rateLimiter (snd (checkRateLimit ?env chargedService ''user-alice'')) ''user-alice''
                 = Some (?l\<lparr>tokens := tokens ?l - 1\<rparr>)"
    by simp_all
  show ?thesis using one two three four e by simp
qed

section \<open>Leaving a room\<close>

lemma notifyLoop_other:
  "notifyLoop d cs cm = Done cm' \<Longrightarrow> x \<notin> set cs \<Longrightarrow> cm' x = cm x"
proof (induction cs arbitrary: cm)
  case Nil
  then show ?case by simp
next
  case (Cons c cs)
  from Cons.prems(2) have xc: "x \<noteq> c" and xs: "x \<notin> set cs" by simp_all
  from Cons.prems(1) obtain cl where cl: "cm c = Some cl"
    by (cases "cm c") simp_all
  show ?case
  proof (cases "trySend (Send cl) d")
    case (Enqueued ch)
    then have "notifyLoop d cs (cm(c \<mapsto> cl\<lparr>Send := ch\<rparr>)) = Done cm'"
      using Cons.prems(1) cl by simp
    from Cons.IH[OF this xs] show ?thesis using xc by simp
  next
    case WouldBlock
    then have "notifyLoop d cs cm = Done cm'"
      using Cons.prems(1) cl by simp
    from Cons.IH[OF this xs] show ?thesis .
  next
    case ClosedChannel
    then show ?thesis using Cons.prems(1) cl by simp
  qed
qed

lemma broadcastNotification_Done:
  assumes "broadcastNotification ty env s room = Done s'"
  shows "\<exists>r cm. roomMem s room = Some r \<and>
           notifyLoop (case Marshal env (notification ty (ID r) (Now env (tick s))) of
                         None \<Rightarrow> NilBytes env | Some d \<Rightarrow> d)
                      (Clients r) (clientMem s) = Done cm \<and>
           s' = s\<lparr>tick := Suc (tick s), clientMem := cm\<rparr>"
proof -
  obtain r where r: "roomMem s room = Some r"
    using assms by (cases "roomMem s room") (simp_all add: broadcastNotification_def)
  let ?d = "case Marshal env (notification ty (ID r) (Now env (tick s))) of
              None \<Rightarrow> NilBytes env | Some d \<Rightarrow> d"
  obtain cm where cm: "notifyLoop ?d (Clients r) (clientMem s) = Done cm"
    using assms r
    by (cases "notifyLoop ?d (Clients r) (clientMem s)")
       (simp_all add: broadcastNotification_def now_def)
  have "s' = s\<lparr>tick := Suc (tick s), clientMem := cm\<rparr>"
    using assms r cm by (simp add: broadcastNotification_def now_def)
  then show ?thesis using r cm by blast
qed

lemma LeaveRoom_not_member:
  assumes "clientMem s client = Some c" "CRoom c = Some room" "roomMem s room = Some r"
    "client \<notin> set (Clients r)"
  shows "LeaveRoom env s client = Done s"
  using assms by (simp add: LeaveRoom_def)

lemma LeaveRoom_unbound:
  assumes "clientMem s client = Some c" "CRoom c = None"
  shows "LeaveRoom env s client = Done s"
  using assms by (simp add: LeaveRoom_def)

lemma LeaveRoom_member:
  assumes c: "clientMem s client = Some c" and cr: "CRoom c = Some room"
    and r: "roomMem s room = Some r" and mem: "client \<in> set (Clients r)"
    and dn: "LeaveRoom env s client = Done s'"
  shows "\<not> closed (Send c) \<and>
         clientMem s' client = Some (c\<lparr>Send := (Send c)\<lparr>closed := True\<rparr>\<rparr>) \<and>
         roomMem s' room = Some (r\<lparr>Clients := removeAll client (Clients r)\<rparr>)"
proof -
  have nc: "\<not> closed (Send c)"
    using dn c cr r mem by (auto simp: LeaveRoom_def split: if_splits)
  define s1 where "s1 = s\<lparr>roomMem := (roomMem s)(room \<mapsto> r\<lparr>Clients := removeAll client (Clients r)\<rparr>),
                           clientMem := (clientMem s)(client \<mapsto> c\<lparr>Send := (Send c)\<lparr>closed := True\<rparr>\<rparr>),
                           logs := logs s @ [LogLeft (UserName c) (ID r)]\<rparr>"
  have unf: "LeaveRoom env s client =
      (case broadcastUserLeft env s1 room (UserName c) of
         Panic p \<Rightarrow> Panic p
       | Done s2 \<Rightarrow>
           (case roomMem s2 room of
              None \<Rightarrow> Panic NilDereference
            | Some r2 \<Rightarrow>
                if length (Clients r2) = 0
                then Done (s2\<lparr>rooms := deleteKey (ID r2) (rooms s2),
                              logs := logs s2 @ [LogDeletedEmptyRoom (ID r2)]\<rparr>)
                else Done s2))"
    using c cr r mem nc by (simp add: LeaveRoom_def s1_def Let_def)
  obtain s2 where s2: "broadcastNotification ''user_left'' env s1 room = Done s2"
    using dn unfolding unf broadcastUserLeft_def
    by (cases "broadcastNotification ''user_left'' env s1 room") simp_all
  from broadcastNotification_Done[OF s2] obtain r1 d cm where
    r1: "roomMem s1 room = Some r1" and
    nl: "notifyLoop d (Clients r1) (clientMem s1) = Done cm" and
    s2eq: "s2 = s1\<lparr>tick := Suc (tick s1), clientMem := cm\<rparr>"
    by blast
  have r1eq: "r1 = r\<lparr>Clients := removeAll client (Clients r)\<rparr>"
    using r1 by (simp add: s1_def)
  have "client \<notin> set (Clients r1)" by (simp add: r1eq)
  from notifyLoop_other[OF nl this]
  have cmc: "cm client = Some (c\<lparr>Send := (Send c)\<lparr>closed := True\<rparr>\<rparr>)"
    by (simp add: s1_def)
  have rm2: "roomMem s2 room = Some r1" using r1 by (simp add: s2eq)
  have cm2: "clientMem s2 client = Some (c\<lparr>Send := (Send c)\<lparr>closed := True\<rparr>\<rparr>)"
    using cmc by (simp add: s2eq)
  have "s' = s2 \<or> s' = s2\<lparr>rooms := deleteKey (ID r1) (rooms s2),
                              logs := logs s2 @ [LogDeletedEmptyRoom (ID r1)]\<rparr>"
    using dn unfolding unf broadcastUserLeft_def s2 by (simp add: rm2 split: if_splits)
  then have "clientMem s' client = clientMem s2 client \<and> roomMem s' room = roomMem s2 room"
    by auto
  then show ?thesis using nc rm2 cm2 r1eq by simp
qed



text \<open>
  Claim C6. Leave is idempotent: when \<open>LeaveRoom\<close> returns, a second \<open>LeaveRoom\<close> on the
  same connection returns the very same state (no further notification is queued, no
  log entry is added, nothing is closed). If the connection was a member of its room, the
  first call found its queue open and closed it, and the connection is no longer in the
  member set.
\<close>

theorem leave_idempotent:
  assumes "LeaveRoom env s client = Done s'"
  shows "LeaveRoom env s' client = Done s' \<and>
         (\<forall>c room r. clientMem s client = Some c \<and> CRoom c = Some room \<and>
                     roomMem s room = Some r \<and> client \<in> set (Clients r) \<longrightarrow>
              \<not> closed (Send c) \<and>
              clientMem s' client = Some (c\<lparr>Send := (Send c)\<lparr>closed := True\<rparr>\<rparr>) \<and>
              roomMem s' room = Some (r\<lparr>Clients := removeAll client (Clients r)\<rparr>))"
proof (intro conjI allI impI)
  obtain c where c: "clientMem s client = Some c"
    using assms by (cases "clientMem s client") (simp_all add: LeaveRoom_def)
  show "LeaveRoom env s' client = Done s'"
  proof (cases "CRoom c")
    case None
    then have "s' = s" using assms LeaveRoom_unbound[OF c None, of env] by simp
    then show ?thesis using LeaveRoom_unbound[OF c None, of env] by simp
  next
    case (Some room)
    obtain r where r: "roomMem s room = Some r"
      using assms c Some by (cases "roomMem s room") (simp_all add: LeaveRoom_def)
    show ?thesis
    proof (cases "client \<in> set (Clients r)")
      case False
      then have "s' = s" using assms LeaveRoom_not_member[OF c Some r False, of env] by simp
      then show ?thesis using LeaveRoom_not_member[OF c Some r False, of env] by simp
    next
      case True
      from LeaveRoom_member[OF c Some r True assms]
      have c': "clientMem s' client = Some (c\<lparr>Send := (Send c)\<lparr>closed := True\<rparr>\<rparr>)"
        and r': "roomMem s' room = Some (r\<lparr>Clients := removeAll client (Clients r)\<rparr>)"
        by simp_all
      show ?thesis
        by (rule LeaveRoom_not_member[OF c' _ r']) (simp_all add: Some)
    qed
  qed
next
  fix c room r
  assume h: "clientMem s client = Some c \<and> CRoom c = Some room \<and>
             roomMem s room = Some r \<and> client \<in> set (Clients r)"
  from h have h1: "clientMem s client = Some c" by (elim conjE)
  from h have h2: "CRoom c = Some room" by (elim conjE)
  from h have h3: "roomMem s room = Some r" by (elim conjE)
  from h have h4: "client \<in> set (Clients r)" by (elim conjE)
  note m = LeaveRoom_member[OF h1 h2 h3 h4 assms]
  from m show "\<not> closed (Send c)" by (elim conjE)
  from m show "clientMem s' client = Some (c\<lparr>Send := (Send c)\<lparr>closed := True\<rparr>\<rparr>)"
    by (elim conjE)
  from m show "roomMem s' room = Some (r\<lparr>Clients := removeAll client (Clients r)\<rparr>)"
    by (elim conjE)
qed

theorem leave_idempotent_witness:
  "LeaveRoom (envWith nanoClock) twoClientService 0 = Done afterAliceLeft \<and>
   LeaveRoom (envWith nanoClock) afterAliceLeft 0 = Done afterAliceLeft \<and>
   clientMem afterAliceLeft 0
     = Some ((openClient 0 ''alice'')\<lparr>Send := (Send (openClient 0 ''alice''))\<lparr>closed := True\<rparr>\<rparr>)"
proof -
  have a: "LeaveRoom (envWith nanoClock) twoClientService 0 = Done afterAliceLeft"
    by (simp add: LeaveRoom_def twoClientService_def afterAliceLeft_def openClient_def
          broadcastUserLeft_def broadcastNotification_def trySend_def chanCap_def now_def
          envWith_def nanoClock_def Let_def fun_upd_twist)
  have b: "clientMem twoClientService 0 = Some (openClient 0 ''alice'') \<and>
           CRoom (openClient 0 ''alice'') = Some 0 \<and>
           roomMem twoClientService 0
             = Some \<lparr>ID = ''r1'', Name = ''Chat Room'', Clients = [0, 1], Messages = [],
                      CreatedAt = 0\<rparr> \<and>
           (0::nat) \<in> set (Clients \<lparr>ID = ''r1'', Name = ''Chat Room'', Clients = [0, 1],
                                   Messages = [], CreatedAt = 0\<rparr>)"
    by (simp add: twoClientService_def openClient_def)
  from leave_idempotent[OF a] have c: "LeaveRoom (envWith nanoClock) afterAliceLeft 0 = Done afterAliceLeft"
    by (elim conjE)
  from leave_idempotent[OF a] b
  have d: "clientMem afterAliceLeft 0
     = Some ((openClient 0 ''alice'')\<lparr>Send := (Send (openClient 0 ''alice''))\<lparr>closed := True\<rparr>\<rparr>)"
    by blast
  show ?thesis using a c d by (intro conjI)
qed

section \<open>Joining a room\<close>

lemma fullChan_simps:
  "length (buf fullChan) = 256" "closed fullChan = False"
  by (simp_all add: fullChan_def)

lemma trySend_fullChan: "trySend fullChan d = WouldBlock"
  by (simp add: trySend_def fullChan_simps chanCap_def)

lemma notifyLoop_member:
  assumes "distinct cs" "notifyLoop d cs cm = Done cm'" "x \<in> set cs" "cm x = Some cl"
  shows "\<not> closed (Send cl) \<and>
         cm' x = Some (cl\<lparr>Send := (if length (buf (Send cl)) < chanCap
                                    then (Send cl)\<lparr>buf := buf (Send cl) @ [d]\<rparr>
                                    else Send cl)\<rparr>)"
  using assms
proof (induction cs arbitrary: cm)
  case Nil
  then show ?case by simp
next
  case (Cons c cs)
  from Cons.prems(2) obtain cc where cc: "cm c = Some cc"
    by (cases "cm c") simp_all
  have dcs: "distinct cs" and cn: "c \<notin> set cs" using Cons.prems(1) by simp_all
  have nclosed: "\<not> closed (Send cc)"
    using Cons.prems(2) cc by (auto simp: trySend_def split: if_splits)
  define cm1 where "cm1 = (if length (buf (Send cc)) < chanCap
                           then cm(c \<mapsto> cc\<lparr>Send := (Send cc)\<lparr>buf := buf (Send cc) @ [d]\<rparr>\<rparr>)
                           else cm)"
  have step: "notifyLoop d cs cm1 = Done cm'"
    using Cons.prems(2) cc nclosed by (simp add: trySend_def cm1_def split: if_splits)
  show ?case
  proof (cases "x = c")
    case True
    then have "cl = cc" using Cons.prems(4) cc by simp
    have "cm' c = cm1 c" using notifyLoop_other[OF step cn] .
    then show ?thesis using True \<open>cl = cc\<close> nclosed cc
      by (auto simp: cm1_def)
  next
    case False
    then have xin: "x \<in> set cs" using Cons.prems(3) by simp
    have "cm1 x = Some cl" using False Cons.prems(4) by (simp add: cm1_def)
    from Cons.IH[OF dcs step xin this] show ?thesis .
  qed
qed

lemma notifyLoop_Done:
  assumes "distinct cs" "\<forall>c\<in>set cs. \<exists>cl. cm c = Some cl \<and> \<not> closed (Send cl)"
  shows "\<exists>cm'. notifyLoop d cs cm = Done cm'"
  using assms
proof (induction cs arbitrary: cm)
  case Nil
  then show ?case by simp
next
  case (Cons c cs)
  from Cons.prems obtain cl where cl: "cm c = Some cl" "\<not> closed (Send cl)" by auto
  have d: "distinct cs" and nin: "c \<notin> set cs" using Cons.prems(1) by simp_all
  have rest: "\<forall>c'\<in>set cs. \<exists>cl'. (cm(c \<mapsto> x)) c' = Some cl' \<and> \<not> closed (Send cl')" for x
    using Cons.prems(2) nin by auto
  have rest0: "\<forall>c'\<in>set cs. \<exists>cl'. cm c' = Some cl' \<and> \<not> closed (Send cl')"
    using Cons.prems(2) by auto
  show ?case
  proof (cases "length (buf (Send cl)) < chanCap")
    case True
    then have e: "notifyLoop d (c # cs) cm
                 = notifyLoop d cs (cm(c \<mapsto> cl\<lparr>Send := (Send cl)\<lparr>buf := buf (Send cl) @ [d]\<rparr>\<rparr>))"
      using cl by (simp add: trySend_def)
    show ?thesis unfolding e by (rule Cons.IH[OF d rest])
  next
    case False
    then have e: "notifyLoop d (c # cs) cm = notifyLoop d cs cm"
      using cl by (simp add: trySend_def)
    show ?thesis unfolding e by (rule Cons.IH[OF d rest0])
  qed
qed


lemma JoinRoom_existing:
  assumes reg: "map_of (rooms s) roomID = Some room"
    and r: "roomMem s room = Some r"
    and c: "clientMem s client = Some c"
  shows "JoinRoom env s client roomID userID userName =
     (case notifyLoop
             (case Marshal env (notification ''user_joined'' (ID r) (Now env (tick s))) of
                None \<Rightarrow> NilBytes env | Some d \<Rightarrow> d)
             (if client \<in> set (Clients r) then Clients r else Clients r @ [client])
             ((clientMem s)(client \<mapsto> c\<lparr>CRoom := Some room, UserID := userID, UserName := userName\<rparr>)) of
        Panic p \<Rightarrow> Panic p
      | Done cm \<Rightarrow>
          Done (s\<lparr>clientMem := cm,
                  roomMem := (roomMem s)(room \<mapsto>
                     r\<lparr>Clients := (if client \<in> set (Clients r) then Clients r
                                     else Clients r @ [client])\<rparr>),
                  logs := logs s @ [LogJoined userName userID roomID],
                  tick := Suc (tick s)\<rparr>))"
  using assms
  by (simp add: JoinRoom_def broadcastUserJoined_def broadcastNotification_def now_def Let_def
        split: outcome.splits)

text \<open>
  Claim C7, as stated, fails. Bob joins room r1, whose only member Alice has a full
  queue: the \<open>user_joined\<close> frame is not put on Alice's queue, and it is put on Bob's own.
\<close>

theorem join_notification_counterexample:
  "JoinRoom (envWith nanoClock) fullRoomService 1 ''r1'' ''user-bob'' ''bob'' = Done afterBobJoined \<and>
   map_option Send (clientMem fullRoomService 0) = Some fullChan \<and>
   map_option Send (clientMem afterBobJoined 0) = Some fullChan \<and>
   map_option Send (clientMem afterBobJoined 1)
     = Some \<lparr>buf = [notification ''user_joined'' ''r1'' 0], closed = False\<rparr>"
proof -
  have a: "map_of (rooms fullRoomService) ''r1'' = Some 0"
    by (simp add: fullRoomService_def)
  have b: "roomMem fullRoomService 0
             = Some \<lparr>ID = ''r1'', Name = ''Chat Room'', Clients = [0], Messages = [], CreatedAt = 0\<rparr>"
    by (simp add: fullRoomService_def)
  have c: "clientMem fullRoomService 1 = Some unboundClient"
    by (simp add: fullRoomService_def)
  have "JoinRoom (envWith nanoClock) fullRoomService 1 ''r1'' ''user-bob'' ''bob'' = Done afterBobJoined"
    unfolding JoinRoom_existing[OF a b c]
    by (simp add: fullRoomService_def afterBobJoined_def unboundClient_def openClient_def
          trySend_def fullChan_simps chanCap_def envWith_def nanoClock_def fun_upd_twist)
  moreover have "map_option Send (clientMem fullRoomService 0) = Some fullChan"
    by (simp add: fullRoomService_def)
  moreover have "map_option Send (clientMem afterBobJoined 0) = Some fullChan"
    by (simp add: afterBobJoined_def)
  moreover have "map_option Send (clientMem afterBobJoined 1)
     = Some \<lparr>buf = [notification ''user_joined'' ''r1'' 0], closed = False\<rparr>"
    by (simp add: afterBobJoined_def)
  ultimately show ?thesis by (intro conjI)
qed

text \<open>
  Claim C7, amended. When a connection joins an existing room (its own queue and the
  queues of the members being open), \<open>JoinRoom\<close> returns, the connection is in the
  member set, and the \<open>user_joined\<close> frame has been offered without blocking to the queue
  of every other member: it is appended where the queue has a free slot, and a full
  queue is left as it was.
\<close>

theorem join_notifies_other_members:
  assumes reg: "map_of (rooms s) roomID = Some room"
    and r: "roomMem s room = Some r"
    and dist: "distinct (Clients r)"
    and c: "clientMem s client = Some c"
    and copen: "\<not> closed (Send c)"
    and mopen: "\<forall>x\<in>set (Clients r). \<exists>cl. clientMem s x = Some cl \<and> \<not> closed (Send cl)"
  shows "\<exists>s'. JoinRoom env s client roomID userID userName = Done s' \<and>
           roomMem s' room = Some (r\<lparr>Clients := (if client \<in> set (Clients r) then Clients r
                                                   else Clients r @ [client])\<rparr>) \<and>
           (\<forall>x cl. x \<in> set (Clients r) \<and> x \<noteq> client \<and> clientMem s x = Some cl \<longrightarrow>
              clientMem s' x =
                Some (cl\<lparr>Send :=
                   (if length (buf (Send cl)) < chanCap
                    then (Send cl)\<lparr>buf := buf (Send cl) @
                           [case Marshal env (notification ''user_joined'' (ID r) (Now env (tick s))) of
                              None \<Rightarrow> NilBytes env | Some d \<Rightarrow> d]\<rparr>
                    else Send cl)\<rparr>))"
proof -
  define d where "d = (case Marshal env (notification ''user_joined'' (ID r) (Now env (tick s))) of
                         None \<Rightarrow> NilBytes env | Some d \<Rightarrow> d)"
  define members where "members = (if client \<in> set (Clients r) then Clients r else Clients r @ [client])"
  define cm0 where "cm0 = (clientMem s)(client \<mapsto> c\<lparr>CRoom := Some room, UserID := userID, UserName := userName\<rparr>)"
  have dm: "distinct members" using dist by (simp add: members_def)
  have om: "\<forall>x\<in>set members. \<exists>cl. cm0 x = Some cl \<and> \<not> closed (Send cl)"
    using mopen copen by (auto simp: members_def cm0_def)
  obtain cm where cm: "notifyLoop d members cm0 = Done cm"
    using notifyLoop_Done[OF dm om] by blast
  define s' where "s' = s\<lparr>clientMem := cm,
                  roomMem := (roomMem s)(room \<mapsto> r\<lparr>Clients := members\<rparr>),
                  logs := logs s @ [LogJoined userName userID roomID],
                  tick := Suc (tick s)\<rparr>"
  have j: "JoinRoom env s client roomID userID userName = Done s'"
    unfolding JoinRoom_existing[OF reg r c] d_def[symmetric] members_def[symmetric] cm0_def[symmetric]
    by (simp add: cm s'_def)
  have rm: "roomMem s' room = Some (r\<lparr>Clients := members\<rparr>)"
    by (simp add: s'_def)
  have others: "clientMem s' x =
                Some (cl\<lparr>Send := (if length (buf (Send cl)) < chanCap
                                   then (Send cl)\<lparr>buf := buf (Send cl) @ [d]\<rparr>
                                   else Send cl)\<rparr>)"
    if "x \<in> set (Clients r) \<and> x \<noteq> client \<and> clientMem s x = Some cl" for x cl
  proof -
    from that have x1: "x \<in> set members" by (auto simp: members_def)
    from that have x2: "cm0 x = Some cl" by (simp add: cm0_def)
    from notifyLoop_member[OF dm cm x1 x2] show ?thesis by (simp add: s'_def)
  qed
  show ?thesis
    unfolding d_def[symmetric] members_def[symmetric]
    using j rm others by blast
qed


theorem join_notifies_other_members_witness:
  "\<exists>s'. JoinRoom (envWith nanoClock) lobbyService 1 ''r1'' ''user-bob'' ''bob'' = Done s' \<and>
        roomMem s' 0 = Some \<lparr>ID = ''r1'', Name = ''Chat Room'', Clients = [0, 1], Messages = [],
                              CreatedAt = 0\<rparr> \<and>
        clientMem s' 0 = Some ((openClient 0 ''alice'')\<lparr>Send :=
                           \<lparr>buf = [notification ''user_joined'' ''r1'' 0], closed = False\<rparr>\<rparr>)"
proof -
  let ?r = "\<lparr>ID = ''r1'', Name = ''Chat Room'', Clients = [0], Messages = [], CreatedAt = 0\<rparr>"
  have h1: "map_of (rooms lobbyService) ''r1'' = Some 0"
    by (simp add: lobbyService_def oneRoomService_def)
  have h2: "roomMem lobbyService 0 = Some ?r"
    by (simp add: lobbyService_def oneRoomService_def)
  have h3: "distinct (Clients ?r)" by simp
  have h4: "clientMem lobbyService 1 = Some unboundClient"
    by (simp add: lobbyService_def)
  have h5: "\<not> closed (Send unboundClient)" by (simp add: unboundClient_def)
  have h6: "\<forall>x\<in>set (Clients ?r). \<exists>cl. clientMem lobbyService x = Some cl \<and> \<not> closed (Send cl)"
    by (simp add: lobbyService_def openClient_def)
  from join_notifies_other_members[OF h1 h2 h3 h4 h5 h6, of "envWith nanoClock" "''user-bob''" "''bob''"]
  obtain s' where j: "JoinRoom (envWith nanoClock) lobbyService 1 ''r1'' ''user-bob'' ''bob'' = Done s'"
    and rm: "roomMem s' 0 = Some (?r\<lparr>Clients := (if 1 \<in> set (Clients ?r) then Clients ?r
                                                   else Clients ?r @ [1])\<rparr>)"
    and ot: "\<forall>x cl. x \<in> set (Clients ?r) \<and> x \<noteq> 1 \<and> clientMem lobbyService x = Some cl \<longrightarrow>
              clientMem s' x =
                Some (cl\<lparr>Send :=
                   (if length (buf (Send cl)) < chanCap
                    then (Send cl)\<lparr>buf := buf (Send cl) @
                           [case Marshal (envWith nanoClock)
                                   (notification ''user_joined'' (ID ?r)
                                      (Now (envWith nanoClock) (tick lobbyService))) of
                              None \<Rightarrow> NilBytes (envWith nanoClock) | Some d \<Rightarrow> d]\<rparr>
                    else Send cl)\<rparr>)"
    by blast
  have a: "(0::nat) \<in> set (Clients ?r) \<and> (0::nat) \<noteq> 1 \<and>
           clientMem lobbyService 0 = Some (openClient 0 ''alice'')"
    by (simp add: lobbyService_def)
  from ot a have "clientMem s' 0 =
                Some ((openClient 0 ''alice'')\<lparr>Send :=
                   (if length (buf (Send (openClient 0 ''alice''))) < chanCap
                    then (Send (openClient 0 ''alice''))\<lparr>buf := buf (Send (openClient 0 ''alice'')) @
                           [case Marshal (envWith nanoClock)
                                   (notification ''user_joined'' (ID ?r)
                                      (Now (envWith nanoClock) (tick lobbyService))) of
                              None \<Rightarrow> NilBytes (envWith nanoClock) | Some d \<Rightarrow> d]\<rparr>
                    else Send (openClient 0 ''alice''))\<rparr>)"
    by blast
  then have c0: "clientMem s' 0 = Some ((openClient 0 ''alice'')\<lparr>Send :=
                           \<lparr>buf = [notification ''user_joined'' ''r1'' 0], closed = False\<rparr>\<rparr>)"
    by (simp add: openClient_def chanCap_def envWith_def nanoClock_def lobbyService_def
          oneRoomService_def)
  have r0: "roomMem s' 0 = Some \<lparr>ID = ''r1'', Name = ''Chat Room'', Clients = [0, 1], Messages = [],
                              CreatedAt = 0\<rparr>"
    using rm by simp
  show ?thesis using j r0 c0 by blast
qed

section \<open>Empty rooms and the registry\<close>

lemma generateRandomString_fst:
  "fst (generateRandomString env s n)
     = map (\<lambda>i. charset ! nat (Now env (tick s + i) mod 62)) [0..<n]"
proof (induction n arbitrary: s)
  case 0
  then show ?case by simp
next
  case (Suc n)
  have "fst (generateRandomString env s (Suc n))
          = charset ! nat (Now env (tick s) mod 62)
              # fst (generateRandomString env (s\<lparr>tick := Suc (tick s)\<rparr>) n)"
    by (simp add: now_def case_prod_beta)
  also have "fst (generateRandomString env (s\<lparr>tick := Suc (tick s)\<rparr>) n)
          = map (\<lambda>i. charset ! nat (Now env (tick s + Suc i) mod 62)) [0..<n]"
    using Suc.IH[of "s\<lparr>tick := Suc (tick s)\<rparr>"] by simp
  finally show ?case
    by (simp only: map_upt_Suc) simp
qed

lemma generateMessageID_fst:
  "fst (generateMessageID env s)
     = Format env (Now env (tick s)) @ ''-'' @
       map (\<lambda>i. charset ! nat (Now env (Suc (tick s) + i) mod 62)) [0..<6]"
  using generateRandomString_fst[of env "s\<lparr>tick := Suc (tick s)\<rparr>" 6]
  by (simp add: generateMessageID_def now_def case_prod_beta)

lemma stampMessage_fst:
  "fst (stampMessage env s m)
     = m\<lparr>MessageID := fst (generateMessageID env s), Timestamp := Now env (tick s + 7),
         ExpiresAt := Now env (tick s + 8) + MessageExpiration messageConfig,
         Size := int (length (Encrypted m))\<rparr>"
  using generateMessageID_state[of env s]
  by (simp add: stampMessage_def now_def case_prod_beta add.commute)

lemma hello_id:
  "Format (envWith sweepClock) (Now (envWith sweepClock) 2) @ ''-'' @
     map (\<lambda>i. charset ! nat (Now (envWith sweepClock) (Suc 2 + i) mod 62)) [0..<6]
   = ''19700101000000-defghi''"
  by code_simp

text \<open>
  The sibling path: when the last member leaves through \<open>LeaveRoom\<close>, the room is taken
  out of the registry at once.
\<close>

lemma LeaveRoom_last_member_evicts:
  assumes "clientMem s client = Some c" "CRoom c = Some room" "roomMem s room = Some r"
    "Clients r = [client]" "\<not> closed (Send c)"
  shows "\<exists>s'. LeaveRoom env s client = Done s' \<and> rooms s' = deleteKey (ID r) (rooms s)"
  using assms
  by (simp add: LeaveRoom_def broadcastUserLeft_def broadcastNotification_def now_def)

text \<open>
  Claim C8 at the failing input. Alice is the only member of room r1, created at time 0,
  and her queue is full. Her send is accepted; the fan-out finds the queue full, removes
  her from the member set and closes the queue. The room now has no members and is
  still in the registry; the idle sweep that runs thirty minutes later leaves it there,
  since the room is not yet 24 hours old.
\<close>

theorem fanout_leaves_empty_room_registered:
  "BroadcastMessage (envWith sweepClock) soloFullService 0 helloMessage ''user-alice''
     = Done (None, afterFanOut) \<and>
   map_option Clients (roomMem afterFanOut 0) = Some [] \<and>
   map_of (rooms afterFanOut) ''r1'' = Some 0 \<and>
   Now (envWith sweepClock) (tick afterFanOut) = 30 * minute \<and>
   cleanupRoutine (envWith sweepClock) afterFanOut = Done (afterFanOut\<lparr>tick := 12\<rparr>) \<and>
   map_of (rooms (afterFanOut\<lparr>tick := 12\<rparr>)) ''r1'' = Some 0"
proof -
  let ?env = "envWith sweepClock"
  let ?r = "\<lparr>ID = ''r1'', Name = ''Chat Room'', Clients = [0], Messages = [], CreatedAt = 0\<rparr>"
  define s1 where "s1 = soloFullService\<lparr>tick := 2, rateLimiter :=
                          [''user-alice'' \<mapsto> \<lparr>tokens = 29, capacity = 30, lastRefill = 0\<rparr>]\<rparr>"
  have cr: "checkRateLimit ?env soloFullService ''user-alice'' = (True, s1)"
    by (simp add: checkRateLimit_def soloFullService_def now_def envWith_def sweepClock_def
          messageConfig_def allow_def Sub_def truncMinutes_def minute_def minDuration_def
          maxDuration_def Let_def s1_def)
  have sz: "int (length (Encrypted helloMessage)) \<le> 4096"
    by (simp add: helloMessage_def)
  have room: "roomMem soloFullService 0 = Some ?r"
    by (simp add: soloFullService_def)
  have t1: "tick s1 = 2" by (simp add: s1_def)
  have id: "fst (generateMessageID ?env s1) = ''19700101000000-defghi''"
    unfolding generateMessageID_fst t1 by (rule hello_id)
  have st: "fst (stampMessage ?env s1 helloMessage) = stampedHello"
    unfolding stampMessage_fst id
    by (simp add: t1 stampedHello_def helloMessage_def emptyMessage_def envWith_def
          sweepClock_def messageConfig_def)
  have s2: "snd (stampMessage ?env s1 helloMessage) = s1\<lparr>tick := 11\<rparr>"
    by (simp add: stampMessage_state t1)
  have pd: "persistDurable ?env (s1\<lparr>tick := 11\<rparr>) stampedHello = s1\<lparr>tick := 11\<rparr>"
    by (rule persistDurable_absent) (simp add: s1_def soloFullService_def)
  have fo: "fanOut stampedHello [0] ([0], clientMem soloFullService)
              = Done ([], [0 \<mapsto> (openClient 0 ''alice'')\<lparr>Send := fullChan\<lparr>closed := True\<rparr>\<rparr>])"
    by (simp add: soloFullService_def trySend_def fullChan_simps chanCap_def)
  have bm: "BroadcastMessage ?env soloFullService 0 helloMessage ''user-alice''
              = Done (None, afterFanOut)"
  proof -
    have m: "Marshal ?env stampedHello = Some stampedHello" by (simp add: envWith_def)
    have ah: "appendHistory (Messages ?r) stampedHello = [stampedHello]"
      by (simp add: appendHistory_def)
    have cl: "Clients ?r = [0]" by simp
    show ?thesis
      unfolding BroadcastMessage_accepted[OF cr sz room] Let_def st s2 pd m ah
      by (simp add: fo del: fanOut.simps) (simp add: s1_def soloFullService_def afterFanOut_def)
  qed
  have cl: "cleanupRoutine ?env afterFanOut = Done (afterFanOut\<lparr>tick := 12\<rparr>)"
    by (simp add: cleanupRoutine_def afterFanOut_def now_def envWith_def sweepClock_def
          Sub_def minute_def hour_def maxDuration_def minDuration_def Let_def)
  have a: "map_option Clients (roomMem afterFanOut 0) = Some []"
    by (simp add: afterFanOut_def)
  have b: "map_of (rooms afterFanOut) ''r1'' = Some 0"
    by (simp add: afterFanOut_def)
  have c: "Now ?env (tick afterFanOut) = 30 * minute"
    by (simp add: afterFanOut_def envWith_def sweepClock_def)
  have d: "map_of (rooms (afterFanOut\<lparr>tick := 12\<rparr>)) ''r1'' = Some 0"
    by (simp add: afterFanOut_def)
  show ?thesis using bm a b c cl d by (intro conjI)
qed

section \<open>Message ids and the clock\<close>





section \<open>History replay on join\<close>

















section \<open>Reading the durable tier\<close>












section \<open>Round trip of payload and IV\<close>






lemma fetchMessages_tick:
  "tick (snd (fetchMessages env rc roomID ids s)) = tick s + length ids"
  by (induction ids arbitrary: s)
     (simp_all add: now_def case_prod_beta Let_def split: sum.splits redisErr.splits option.splits)












end
